theory Spec2Isabelle
  imports Main "HOL-Library.Char_ord" "HOL-Library.List_Lexorder"
begin

section \<open>Scope of the embedding\<close>

text \<open>
  The development embeds \<^verbatim>\<open>tools/generate_manifest.py\<close>, the one source file of
  the repository. Each Python function becomes a HOL function of the same name; the
  file system and the standard output are an explicit state (\<open>world\<close>) that every
  effectful function takes and returns, and every exception is a value of type
  \<open>error\<close>.

  Conventions:
  \<^item> Text is ASCII: a \<open>char\<close> is one code point below 128, and \<open>str.upper\<close> and
    \<open>str.strip\<close> are modelled on that range.
  \<^item> \<open>pathlib\<close> is modelled for POSIX as of Python 3.11: a path is a flag (absolute or
    not) and the list of its components. A leading \<open>//\<close> is read as \<open>/\<close>.
  \<^item> The file system has regular files and directories, no symbolic links and no
    permissions. A path is looked up after its \<open>..\<close> components are resolved
    lexically; the program only touches such a path after creating its parents, where
    this agrees with the operating system. Relative paths are read from the root.
  \<^item> What the script takes from libraries and from the environment is a parameter
    (\<open>env\<close>): SHA-256, the JSON parser and printer, \<open>Path.resolve\<close>, and the clock
    readings. JSON numbers are integers; floating point is not modelled.
\<close>

section \<open>Strings\<close>

definition is_space :: "char \<Rightarrow> bool" where
  "is_space c = (let n = (of_char c :: nat) in (9 \<le> n \<and> n \<le> 13) \<or> (28 \<le> n \<and> n \<le> 32))"

definition strip :: "string \<Rightarrow> string" where
  "strip s = rev (dropWhile is_space (rev (dropWhile is_space s)))"

definition upper_char :: "char \<Rightarrow> char" where
  "upper_char c = (let n = (of_char c :: nat) in if 97 \<le> n \<and> n \<le> 122 then char_of (n - 32) else c)"

definition upper :: "string \<Rightarrow> string" where
  "upper s = map upper_char s"

definition endswith :: "string \<Rightarrow> string \<Rightarrow> bool" where
  "endswith s suf = (length suf \<le> length s \<and> drop (length s - length suf) s = suf)"

definition startswith :: "string \<Rightarrow> string \<Rightarrow> bool" where
  "startswith s pre = (take (length pre) s = pre)"

text \<open>\<open>str.split(sep)\<close> for a one-character separator.\<close>

fun split_on :: "char \<Rightarrow> string \<Rightarrow> string list" where
  "split_on c [] = [[]]"
| "split_on c (x # xs) =
     (if x = c then [] # split_on c xs
      else (case split_on c xs of [] \<Rightarrow> [[x]] | y # ys \<Rightarrow> (x # y) # ys))"

text \<open>\<open>sep.join(xs)\<close>.\<close>

fun join :: "string \<Rightarrow> string list \<Rightarrow> string" where
  "join sep [] = []"
| "join sep [x] = x"
| "join sep (x # y # ys) = x @ sep @ join sep (y # ys)"

text \<open>\<open>str.rfind(c)\<close>; \<open>None\<close> is Python's \<open>-1\<close>.\<close>

fun rfind :: "char \<Rightarrow> string \<Rightarrow> nat option" where
  "rfind c [] = None"
| "rfind c (x # xs) =
     (case rfind c xs of Some i \<Rightarrow> Some (Suc i) | None \<Rightarrow> if x = c then Some 0 else None)"

text \<open>\<open>str.replace(old, new)\<close> for a non-empty \<open>old\<close>.\<close>

function py_replace :: "string \<Rightarrow> string \<Rightarrow> string \<Rightarrow> string" where
  "py_replace old new [] = []"
| "py_replace old new (c # cs) =
     (if old \<noteq> [] \<and> startswith (c # cs) old
      then new @ py_replace old new (drop (length old) (c # cs))
      else c # py_replace old new cs)"
  by pat_completeness auto
termination
  by (relation "measure (\<lambda>(old, new, s). length s)") (auto simp: neq_Nil_conv)

definition digit_char :: "nat \<Rightarrow> char" where
  "digit_char n = char_of (48 + n)"

fun str_nat :: "nat \<Rightarrow> string" where
  "str_nat n = (if n < 10 then [digit_char n] else str_nat (n div 10) @ [digit_char (n mod 10)])"

declare str_nat.simps [simp del]

definition str_int :: "int \<Rightarrow> string" where
  "str_int i = (if i < 0 then ''-'' @ str_nat (nat (- i)) else str_nat (nat i))"

text \<open>\<open>'%0kd' % n\<close> for a natural number \<open>n\<close>.\<close>

definition zero_pad :: "nat \<Rightarrow> nat \<Rightarrow> string" where
  "zero_pad k n = replicate (k - length (str_nat n)) (CHR ''0'') @ str_nat n"

section \<open>Paths\<close>

datatype ppath = PPath (absolute: bool) (parts: "string list")

definition segs :: "string \<Rightarrow> string list" where
  "segs s = filter (\<lambda>t. t \<noteq> [] \<and> t \<noteq> ''.'') (split_on (CHR ''/'') s)"

text \<open>\<open>Path(s)\<close>.\<close>

definition parse_path :: "string \<Rightarrow> ppath" where
  "parse_path s = PPath (startswith s ''/'') (segs s)"

text \<open>\<open>p / q\<close> for two paths, and \<open>p / s\<close> for a path and a string.\<close>

definition pjoin_path :: "ppath \<Rightarrow> ppath \<Rightarrow> ppath" where
  "pjoin_path p q = (if absolute q then q else PPath (absolute p) (parts p @ parts q))"

definition pjoin :: "ppath \<Rightarrow> string \<Rightarrow> ppath" where
  "pjoin p s = pjoin_path p (parse_path s)"

definition as_posix :: "ppath \<Rightarrow> string" where
  "as_posix p =
     (if absolute p then ''/'' @ join ''/'' (parts p)
      else if parts p = [] then ''.'' else join ''/'' (parts p))"

definition name :: "ppath \<Rightarrow> string" where
  "name p = (if parts p = [] then [] else last (parts p))"

definition parent :: "ppath \<Rightarrow> ppath" where
  "parent p = PPath (absolute p) (butlast (parts p))"

text \<open>
  \<open>PurePath.suffix\<close> and \<open>PurePath.stem\<close>: the name is cut at its last dot when that
  dot is neither the first nor the last character.
\<close>

definition suffix :: "ppath \<Rightarrow> string" where
  "suffix p =
     (let nm = name p in
      case rfind (CHR ''.'') nm of
        Some i \<Rightarrow> if 0 < i \<and> i < length nm - 1 then drop i nm else []
      | None \<Rightarrow> [])"

definition stem :: "ppath \<Rightarrow> string" where
  "stem p =
     (let nm = name p in
      case rfind (CHR ''.'') nm of
        Some i \<Rightarrow> if 0 < i \<and> i < length nm - 1 then take i nm else nm
      | None \<Rightarrow> nm)"

section \<open>JSON values and Python's \<open>str\<close>\<close>

datatype json =
    JNull
  | JBool bool
  | JInt int
  | JStr string
  | JList "json list"
  | JObj "(string \<times> json) list"

text \<open>
  A \<open>dict\<close> keeps its keys in insertion order: an association list in which storing
  under a key that is present replaces the value in place and storing under a new
  key appends.
\<close>

definition dict_get :: "('k \<times> 'v) list \<Rightarrow> 'k \<Rightarrow> 'v option" where
  "dict_get d k = map_of d k"

fun dict_set :: "'k \<Rightarrow> 'v \<Rightarrow> ('k \<times> 'v) list \<Rightarrow> ('k \<times> 'v) list" where
  "dict_set k v [] = [(k, v)]"
| "dict_set k v ((k', v') # d) = (if k' = k then (k, v) # d else (k', v') # dict_set k v d)"

definition setdefault :: "'k \<Rightarrow> 'v \<Rightarrow> ('k \<times> 'v) list \<Rightarrow> ('k \<times> 'v) list" where
  "setdefault k v d = (case dict_get d k of Some _ \<Rightarrow> d | None \<Rightarrow> d @ [(k, v)])"

definition hex_char :: "nat \<Rightarrow> char" where
  "hex_char n = (if n < 10 then char_of (48 + n) else char_of (87 + n))"

text \<open>\<open>repr\<close> of a string: the quote is \<open>"\<close> only when the string has a \<open>'\<close> and no \<open>"\<close>.\<close>

definition repr_char :: "char \<Rightarrow> char \<Rightarrow> string" where
  "repr_char q c =
     (let n = (of_char c :: nat) in
      if c = q \<or> c = CHR 0x5C then [CHR 0x5C, c]
      else if n = 9 then [CHR 0x5C, CHR ''t'']
      else if n = 10 then [CHR 0x5C, CHR ''n'']
      else if n = 13 then [CHR 0x5C, CHR ''r'']
      else if n < 32 \<or> n = 127 then [CHR 0x5C, CHR ''x'', hex_char (n div 16), hex_char (n mod 16)]
      else [c])"

definition repr_str :: "string \<Rightarrow> string" where
  "repr_str s =
     (let q = (if CHR 0x27 \<in> set s \<and> CHR 0x22 \<notin> set s then CHR 0x22 else CHR 0x27)
      in [q] @ concat (map (repr_char q) s) @ [q])"

fun py_repr :: "json \<Rightarrow> string" where
  "py_repr JNull = ''None''"
| "py_repr (JBool b) = (if b then ''True'' else ''False'')"
| "py_repr (JInt i) = str_int i"
| "py_repr (JStr s) = repr_str s"
| "py_repr (JList xs) = ''['' @ join '', '' (map py_repr xs) @ '']''"
| "py_repr (JObj d) =
     ''{'' @ join '', '' (map (\<lambda>kv. repr_str (fst kv) @ '': '' @ py_repr (snd kv)) d) @ ''}''"

text \<open>\<open>str(v)\<close>: a string is itself, anything else prints as its \<open>repr\<close>.\<close>

definition py_str :: "json \<Rightarrow> string" where
  "py_str v = (case v of JStr s \<Rightarrow> s | _ \<Rightarrow> py_repr v)"

section \<open>Time stamps\<close>

text \<open>A time-zone-aware \<open>datetime\<close> in UTC, to the second.\<close>

record datetime =
  year :: nat
  month :: nat
  day :: nat
  hour :: nat
  minute :: nat
  second :: nat

definition isoformat :: "datetime \<Rightarrow> string" where
  "isoformat dt =
     zero_pad 4 (year dt) @ ''-'' @ zero_pad 2 (month dt) @ ''-'' @ zero_pad 2 (day dt) @ ''T'' @
     zero_pad 2 (hour dt) @ '':'' @ zero_pad 2 (minute dt) @ '':'' @ zero_pad 2 (second dt) @
     ''+00:00''"

definition iso_z :: "datetime \<Rightarrow> string" where
  "iso_z dt = py_replace ''+00:00'' ''Z'' (isoformat dt)"

text \<open>\<open>dt.strftime("%Y%m%d-%H%M%S")\<close>.\<close>

definition strftime_stamp :: "datetime \<Rightarrow> string" where
  "strftime_stamp dt =
     zero_pad 4 (year dt) @ zero_pad 2 (month dt) @ zero_pad 2 (day dt) @ ''-'' @
     zero_pad 2 (hour dt) @ zero_pad 2 (minute dt) @ zero_pad 2 (second dt)"

section \<open>Errors, the file system and the output\<close>

text \<open>
  The three exceptions the script raises itself carry their message.
  \<open>AttributeError\<close> is \<open>template.get\<close> on a value that is not a \<open>dict\<close>,
  \<open>JSONDecodeError\<close> is the parser's failure, and \<open>OSError\<close> stands for every
  failure of a file operation inside the library.
\<close>

datatype error =
    FileNotFoundError string
  | RuntimeError string
  | ValueError string
  | AttributeError
  | JSONDecodeError
  | OSError

datatype node = File (content: string) (modified: datetime) | Dir

record world =
  files :: "(string list \<times> node) list"
  out :: "string list"

definition print :: "string \<Rightarrow> world \<Rightarrow> world" where
  "print line w = w\<lparr>out := out w @ [line]\<rparr>"

definition canon :: "string list \<Rightarrow> string list" where
  "canon cs = foldl (\<lambda>acc c. if c = ''..'' then butlast acc else acc @ [c]) [] cs"

definition key :: "ppath \<Rightarrow> string list" where
  "key p = canon (parts p)"

definition lookup_key :: "world \<Rightarrow> string list \<Rightarrow> node option" where
  "lookup_key w k = (if k = [] then Some Dir else map_of (files w) k)"

definition lookup :: "world \<Rightarrow> ppath \<Rightarrow> node option" where
  "lookup w p = lookup_key w (key p)"

definition put :: "string list \<Rightarrow> node \<Rightarrow> world \<Rightarrow> world" where
  "put k n w = w\<lparr>files := dict_set k n (files w)\<rparr>"

definition remove :: "string list \<Rightarrow> world \<Rightarrow> world" where
  "remove k w = w\<lparr>files := filter (\<lambda>kv. fst kv \<noteq> k) (files w)\<rparr>"

definition exists :: "world \<Rightarrow> ppath \<Rightarrow> bool" where
  "exists w p = (lookup w p \<noteq> None)"

definition is_file :: "world \<Rightarrow> ppath \<Rightarrow> bool" where
  "is_file w p = (case lookup w p of Some (File _ _) \<Rightarrow> True | _ \<Rightarrow> False)"

definition is_dir :: "world \<Rightarrow> ppath \<Rightarrow> bool" where
  "is_dir w p = (case lookup w p of Some Dir \<Rightarrow> True | _ \<Rightarrow> False)"

text \<open>
  \<open>p.mkdir(parents=True, exist_ok=True)\<close>: every missing directory on the way is
  created; a regular file on the way is an error, and the directories created before
  it stay.
\<close>

fun mkdirs :: "string list \<Rightarrow> string list \<Rightarrow> world \<Rightarrow> (error + unit) \<times> world" where
  "mkdirs seen [] w = (Inr (), w)"
| "mkdirs seen (c # cs) w =
     (let cur = seen @ [c] in
      case lookup_key w (canon cur) of
        Some Dir \<Rightarrow> mkdirs cur cs w
      | Some (File _ _) \<Rightarrow> (Inl OSError, w)
      | None \<Rightarrow> mkdirs cur cs (put (canon cur) Dir w))"

definition mkdir_parents :: "world \<Rightarrow> ppath \<Rightarrow> (error + unit) \<times> world" where
  "mkdir_parents w p = mkdirs [] (parts p) w"

text \<open>
  \<open>shutil.copy2(src, dst)\<close>: content and modification time are copied; a destination
  that is a directory receives the file under the source's name.
\<close>

definition copy2 :: "world \<Rightarrow> ppath \<Rightarrow> ppath \<Rightarrow> (error + unit) \<times> world" where
  "copy2 w src dst =
     (case lookup w src of
        Some (File c t) \<Rightarrow>
          (let target = (if is_dir w dst then pjoin dst (name src) else dst) in
           if is_dir w target \<or> \<not> is_dir w (parent target) then (Inl OSError, w)
           else (Inr (), put (key target) (File c t) w))
      | _ \<Rightarrow> (Inl OSError, w))"

text \<open>
  \<open>source_dir.rglob("*.pdf")\<close>: the entries below a directory whose name ends in
  \<open>.pdf\<close> (the match is case-sensitive), each as \<open>source_dir\<close> joined with the
  relative path.
\<close>

definition rglob_pdf :: "world \<Rightarrow> ppath \<Rightarrow> ppath list" where
  "rglob_pdf w d =
     (if is_dir w d
      then map (\<lambda>k. PPath (absolute d) (parts d @ drop (length (key d)) k))
             (filter (\<lambda>k. length (key d) < length k \<and> take (length (key d)) k = key d
                          \<and> endswith (last k) ''.pdf'')
                (remdups (map fst (files w))))
      else [])"

text \<open>\<open>sorted\<close> on paths compares their component lists.\<close>

definition sorted_paths :: "ppath list \<Rightarrow> ppath list" where
  "sorted_paths ps = sort_key parts ps"

section \<open>Library functions and clock readings\<close>

record env =
  sha256_hex :: "string \<Rightarrow> string"
  json_loads :: "string \<Rightarrow> json option"
  json_dumps :: "json \<Rightarrow> string"
  resolve :: "string \<Rightarrow> ppath"
  now_build :: datetime
  now_stamp :: datetime
  now_write :: datetime

section \<open>The scanner\<close>

definition SCHEMA_VERSION :: int where
  "SCHEMA_VERSION = 1"

definition safe_iata_from_filename :: "ppath \<Rightarrow> string" where
  "safe_iata_from_filename path = upper (strip (stem path))"

definition ensure_trailing_slash :: "string \<Rightarrow> string" where
  "ensure_trailing_slash url = (if endswith url ''/'' then url else url @ ''/'')"

record PdfInfo =
  iata :: string
  src_path :: ppath
  sha256 :: string
  size_bytes :: int
  mtime :: datetime

definition sha256_file :: "env \<Rightarrow> world \<Rightarrow> ppath \<Rightarrow> string" where
  "sha256_file e w path =
     (case lookup w path of Some (File c _) \<Rightarrow> sha256_hex e c | _ \<Rightarrow> [])"

text \<open>The line printed for a file whose identifier is already taken.\<close>

definition duplicate_warning :: "string \<Rightarrow> ppath \<Rightarrow> ppath \<Rightarrow> string" where
  "duplicate_warning code kept p =
     ''WARN: duplicate IATA '' @ [CHR 0x27] @ code @ [CHR 0x27] @ '' found. Keeping: ''
       @ as_posix kept @ ''  Skipping: '' @ as_posix p"

text \<open>
  The loop of \<open>scan_pdfs\<close> over the sorted paths. \<open>pdf_map\<close> is the dictionary
  under construction, in insertion order.
\<close>

fun scan_loop ::
  "env \<Rightarrow> ppath list \<Rightarrow> (string \<times> PdfInfo) list \<Rightarrow> world \<Rightarrow> (string \<times> PdfInfo) list \<times> world"
where
  "scan_loop e [] pdf_map w = (pdf_map, w)"
| "scan_loop e (p # ps) pdf_map w =
     (case lookup w p of
        Some (File c t) \<Rightarrow>
          (let iata = safe_iata_from_filename p in
           if iata = [] then scan_loop e ps pdf_map w
           else (case dict_get pdf_map iata of
                   Some kept \<Rightarrow>
                     scan_loop e ps pdf_map (print (duplicate_warning iata (src_path kept) p) w)
                 | None \<Rightarrow>
                     scan_loop e ps
                       (dict_set iata
                          \<lparr>iata = iata, src_path = p, sha256 = sha256_file e w p,
                           size_bytes = int (length c), mtime = t\<rparr>
                          pdf_map)
                       w))
      | _ \<Rightarrow> scan_loop e ps pdf_map w)"

definition scan_pdfs ::
  "env \<Rightarrow> world \<Rightarrow> ppath \<Rightarrow> (error + (string \<times> PdfInfo) list) \<times> world"
where
  "scan_pdfs e w source_dir =
     (if \<not> exists w source_dir
      then (Inl (FileNotFoundError (''source-pdfs folder not found: '' @ as_posix source_dir)), w)
      else (case scan_loop e (sorted_paths (rglob_pdf w source_dir)) [] w of
              (pdf_map, w') \<Rightarrow>
                if pdf_map = []
                then (Inl (RuntimeError (''No PDFs found under: '' @ as_posix source_dir)), w')
                else (Inr pdf_map, w')))"

section \<open>The publisher\<close>

definition load_json :: "env \<Rightarrow> world \<Rightarrow> ppath \<Rightarrow> error + json" where
  "load_json e w path =
     (case lookup w path of
        Some (File c _) \<Rightarrow> (case json_loads e c of Some j \<Rightarrow> Inr j | None \<Rightarrow> Inl JSONDecodeError)
      | _ \<Rightarrow> Inl OSError)"

text \<open>\<open>Path("pdfs") / pdf.iata / f"{pdf.sha256}.pdf"\<close>.\<close>

definition rel_path :: "PdfInfo \<Rightarrow> ppath" where
  "rel_path pdf = pjoin (pjoin (parse_path ''pdfs'') (iata pdf)) (sha256 pdf @ ''.pdf'')"

definition copy_pdf_to_immutable_path ::
  "world \<Rightarrow> ppath \<Rightarrow> PdfInfo \<Rightarrow> (error + string) \<times> world"
where
  "copy_pdf_to_immutable_path w root pdf =
     (let rel = rel_path pdf; dst = pjoin_path root rel in
      case mkdir_parents w (parent dst) of
        (Inl err, w1) \<Rightarrow> (Inl err, w1)
      | (Inr _, w1) \<Rightarrow>
          if exists w1 dst then (Inr (as_posix rel), w1)
          else (case copy2 w1 (src_path pdf) dst of
                  (Inl err, w2) \<Rightarrow> (Inl err, w2)
                | (Inr _, w2) \<Rightarrow> (Inr (as_posix rel), w2)))"

section \<open>The manifest builder\<close>

definition normalize_airport_dict :: "(string \<times> json) list \<Rightarrow> string \<Rightarrow> (string \<times> json) list" where
  "normalize_airport_dict airport code =
     setdefault ''city'' (JStr [])
       (setdefault ''name'' (JStr code)
          (setdefault ''icao'' (JStr code)
             (dict_set ''iata'' (JStr code) airport)))"

text \<open>The \<open>pdf\<close> block, written out twice in the source with the same fields.\<close>

definition pdf_block :: "string \<Rightarrow> PdfInfo \<Rightarrow> json" where
  "pdf_block rel_url pdf =
     JObj [(''url'', JStr rel_url),
           (''sha256'', JStr (sha256 pdf)),
           (''size'', JInt (size_bytes pdf)),
           (''updatedAt'', JStr (iso_z (mtime pdf))),
           (''version'', JStr (take 10 (iso_z (mtime pdf))))]"

text \<open>\<open>str(a.get("iata", "")).strip().upper()\<close>.\<close>

definition template_iata :: "(string \<times> json) list \<Rightarrow> string" where
  "template_iata a =
     upper (strip (py_str (case dict_get a ''iata'' of Some v \<Rightarrow> v | None \<Rightarrow> JStr [])))"

text \<open>
  The entry appended for a matched template entry \<open>d\<close>: \<open>a2\<close> after
  \<open>a2["pdf"] = {...}\<close>.
\<close>

definition template_airport :: "(string \<times> json) list \<Rightarrow> string \<Rightarrow> string \<Rightarrow> PdfInfo \<Rightarrow> json" where
  "template_airport d code rel_url pdf =
     JObj (dict_set ''pdf'' (pdf_block rel_url pdf) (normalize_airport_dict d code))"

text \<open>The entry appended when there is no template.\<close>

definition minimal_airport :: "string \<Rightarrow> string \<Rightarrow> PdfInfo \<Rightarrow> json" where
  "minimal_airport code rel_url pdf =
     JObj [(''iata'', JStr code), (''icao'', JStr code), (''name'', JStr code),
           (''city'', JStr []), (''pdf'', pdf_block rel_url pdf)]"

text \<open>The line printed for a template entry without a scanned file.\<close>

definition missing_pdf_warning :: "string \<Rightarrow> string" where
  "missing_pdf_warning code =
     ''WARN: template contains airport '' @ code @ '', but no PDF found. Skipping it.''"

text \<open>The loop over the template's entries; \<open>airports_out\<close> is the list built so far.\<close>

fun template_loop ::
  "(string \<times> PdfInfo) list \<Rightarrow> ppath \<Rightarrow> json list \<Rightarrow> json list \<Rightarrow> world
     \<Rightarrow> (error + json list) \<times> world"
where
  "template_loop pdfs root [] airports_out w = (Inr airports_out, w)"
| "template_loop pdfs root (a # rest) airports_out w =
     (case a of
        JObj d \<Rightarrow>
          (let code = template_iata d in
           if code = [] then template_loop pdfs root rest airports_out w
           else (case dict_get pdfs code of
                   None \<Rightarrow>
                     template_loop pdfs root rest airports_out (print (missing_pdf_warning code) w)
                 | Some pdf \<Rightarrow>
                     (case copy_pdf_to_immutable_path w root pdf of
                        (Inl err, w') \<Rightarrow> (Inl err, w')
                      | (Inr rel_url, w') \<Rightarrow>
                          template_loop pdfs root rest
                            (airports_out @ [template_airport d code rel_url pdf]) w')))
      | _ \<Rightarrow> template_loop pdfs root rest airports_out w)"

text \<open>The loop over \<open>sorted(pdfs.items(), key=lambda kv: kv[0])\<close>.\<close>

fun minimal_loop ::
  "ppath \<Rightarrow> (string \<times> PdfInfo) list \<Rightarrow> json list \<Rightarrow> world \<Rightarrow> (error + json list) \<times> world"
where
  "minimal_loop root [] airports_out w = (Inr airports_out, w)"
| "minimal_loop root ((code, pdf) # rest) airports_out w =
     (case copy_pdf_to_immutable_path w root pdf of
        (Inl err, w') \<Rightarrow> (Inl err, w')
      | (Inr rel_url, w') \<Rightarrow>
          minimal_loop root rest (airports_out @ [minimal_airport code rel_url pdf]) w')"

definition finish_manifest :: "env \<Rightarrow> string option \<Rightarrow> json list \<Rightarrow> json" where
  "finish_manifest e base_url airports_out =
     (let manifest = [(''schemaVersion'', JInt SCHEMA_VERSION),
                      (''generatedAt'', JStr (iso_z (now_build e))),
                      (''airports'', JList airports_out)]
      in case base_url of
           Some url \<Rightarrow>
             if url \<noteq> [] then JObj (dict_set ''baseURL'' (JStr (ensure_trailing_slash url)) manifest)
             else JObj manifest
         | None \<Rightarrow> JObj manifest)"

definition build_manifest ::
  "env \<Rightarrow> world \<Rightarrow> (string \<times> PdfInfo) list \<Rightarrow> ppath \<Rightarrow> string option \<Rightarrow> ppath option
     \<Rightarrow> (error + json) \<times> world"
where
  "build_manifest e w pdfs root base_url template_manifest_path =
     (case template_manifest_path of
        Some tp \<Rightarrow>
          (case load_json e w tp of
             Inl err \<Rightarrow> (Inl err, w)
           | Inr template \<Rightarrow>
               (case template of
                  JObj t \<Rightarrow>
                    (case dict_get t ''airports'' of
                       Some (JList template_airports) \<Rightarrow>
                         (case template_loop pdfs root template_airports [] w of
                            (Inl err, w') \<Rightarrow> (Inl err, w')
                          | (Inr airports_out, w') \<Rightarrow>
                              (Inr (finish_manifest e base_url airports_out), w'))
                     | _ \<Rightarrow>
                         (Inl (ValueError ''Template manifest must contain an 'airports' array.''), w))
                | _ \<Rightarrow> (Inl AttributeError, w)))
      | None \<Rightarrow>
          (case minimal_loop root (sort_key fst pdfs) [] w of
             (Inl err, w') \<Rightarrow> (Inl err, w')
           | (Inr airports_out, w') \<Rightarrow> (Inr (finish_manifest e base_url airports_out), w')))"

section \<open>The manifest writer\<close>

text \<open>\<open>path.with_suffix(s)\<close> for a path with a name.\<close>

definition with_suffix :: "ppath \<Rightarrow> string \<Rightarrow> ppath" where
  "with_suffix p s =
     PPath (absolute p)
       (butlast (parts p) @ [take (length (name p) - length (suffix p)) (name p) @ s])"

definition write_json :: "env \<Rightarrow> world \<Rightarrow> ppath \<Rightarrow> json \<Rightarrow> (error + unit) \<times> world" where
  "write_json e w path obj =
     (case mkdir_parents w (parent path) of
        (Inl err, w1) \<Rightarrow> (Inl err, w1)
      | (Inr _, w1) \<Rightarrow>
          if name path = [] then (Inl (ValueError (as_posix path @ '' has an empty name'')), w1)
          else
            (let tmp = with_suffix path (suffix path @ ''.tmp'') in
             if is_dir w1 tmp then (Inl OSError, w1)
             else
               (let text = json_dumps e obj @ [CHR 0x0A];
                    w2 = put (key tmp) (File text (now_write e)) w1
                in if is_dir w2 path then (Inl OSError, w2)
                   else (Inr (), put (key path) (File text (now_write e)) (remove (key tmp) w2)))))"

section \<open>The command line\<close>

record args =
  arg_source_pdfs :: string
  arg_site_root :: string
  arg_base_url :: "string option"
  arg_template :: "string option"
  arg_timestamp :: "string option"

text \<open>\<open>manifest.get('airports', [])\<close>, and a field of one entry.\<close>

definition manifest_airports :: "json \<Rightarrow> json list" where
  "manifest_airports manifest =
     (case manifest of
        JObj m \<Rightarrow> (case dict_get m ''airports'' of Some (JList xs) \<Rightarrow> xs | _ \<Rightarrow> [])
      | _ \<Rightarrow> [])"

definition field :: "json \<Rightarrow> string \<Rightarrow> json option" where
  "field j k = (case j of JObj d \<Rightarrow> dict_get d k | _ \<Rightarrow> None)"

definition latest_manifest_path :: "ppath \<Rightarrow> ppath" where
  "latest_manifest_path root = pjoin root ''manifest.json''"

definition versioned_manifest_path :: "ppath \<Rightarrow> string \<Rightarrow> ppath" where
  "versioned_manifest_path root ts = pjoin (pjoin root ''manifests'') (''manifest-'' @ ts @ ''.json'')"

text \<open>\<open>ts\<close>: the \<open>--timestamp\<close> argument when it is given and not empty, else the clock.\<close>

definition snapshot_stamp :: "env \<Rightarrow> args \<Rightarrow> string" where
  "snapshot_stamp e a =
     (case arg_timestamp a of
        Some t \<Rightarrow> if t \<noteq> [] then t else strftime_stamp (now_stamp e)
      | None \<Rightarrow> strftime_stamp (now_stamp e))"

definition main :: "env \<Rightarrow> args \<Rightarrow> world \<Rightarrow> (error + int) \<times> world" where
  "main e a w =
     (let source_dir = resolve e (arg_source_pdfs a);
          root = resolve e (arg_site_root a);
          template_path = (case arg_template a of
                             Some t \<Rightarrow> if t \<noteq> [] then Some (resolve e t) else None
                           | None \<Rightarrow> None)
      in case scan_pdfs e w source_dir of
           (Inl err, w1) \<Rightarrow> (Inl err, w1)
         | (Inr pdfs, w1) \<Rightarrow>
             (case build_manifest e w1 pdfs root (arg_base_url a) template_path of
                (Inl err, w2) \<Rightarrow> (Inl err, w2)
              | (Inr manifest, w2) \<Rightarrow>
                  (let ts = snapshot_stamp e a
                   in case write_json e w2 (latest_manifest_path root) manifest of
                        (Inl err, w3) \<Rightarrow> (Inl err, w3)
                      | (Inr _, w3) \<Rightarrow>
                          (case write_json e w3 (versioned_manifest_path root ts) manifest of
                             (Inl err, w4) \<Rightarrow> (Inl err, w4)
                           | (Inr _, w4) \<Rightarrow>
                               (Inr 0,
                                print (''OK: processed '' @ str_nat (length (manifest_airports manifest)) @ '' airports'')
                                  (print (''OK: wrote '' @ as_posix (versioned_manifest_path root ts))
                                     (print (''OK: wrote '' @ as_posix (latest_manifest_path root)) w4)))))))"

section \<open>Notions used in the statements\<close>

text \<open>
  A string that \<open>pathlib\<close> keeps as one path component: not empty, not \<open>.\<close>, and
  without a separator.
\<close>

definition is_component :: "string \<Rightarrow> bool" where
  "is_component s = (s \<noteq> [] \<and> s \<noteq> ''.'' \<and> CHR ''/'' \<notin> set s)"

text \<open>
  What the template loop does with one template entry, without the file system: the
  entry's dictionary, its normalized identifier and the scanned record, when the entry
  is a dictionary whose identifier is not empty and has a record.
\<close>

definition template_match ::
  "(string \<times> PdfInfo) list \<Rightarrow> json \<Rightarrow> ((string \<times> json) list \<times> string \<times> PdfInfo) option"
where
  "template_match pdfs a =
     (case a of
        JObj d \<Rightarrow>
          (let code = template_iata d in
           if code = [] then None
           else (case dict_get pdfs code of
                   Some pdf \<Rightarrow> Some (d, code, pdf)
                 | None \<Rightarrow> None))
      | _ \<Rightarrow> None)"

definition template_entries :: "(string \<times> PdfInfo) list \<Rightarrow> json list \<Rightarrow> json list" where
  "template_entries pdfs tas =
     List.map_filter
       (\<lambda>a. map_option (\<lambda>(d, code, pdf). template_airport d code (as_posix (rel_path pdf)) pdf)
              (template_match pdfs a))
       tas"

text \<open>The place of a record below the site root, as the publisher computes it.\<close>

definition dst_path :: "ppath \<Rightarrow> PdfInfo \<Rightarrow> ppath" where
  "dst_path root pdf = pjoin_path root (rel_path pdf)"

text \<open>The text of a regular file.\<close>

definition read_text :: "world \<Rightarrow> ppath \<Rightarrow> string option" where
  "read_text w p = (case lookup w p of Some (File c _) \<Rightarrow> Some c | _ \<Rightarrow> None)"

text \<open>The records of the scan result: each is the record of a regular file of the list.\<close>

definition scanned :: "world \<Rightarrow> ppath list \<Rightarrow> string \<times> PdfInfo \<Rightarrow> bool" where
  "scanned w ps x =
     (case x of (code, pdf) \<Rightarrow>
        code \<noteq> [] \<and> iata pdf = code \<and> safe_iata_from_filename (src_path pdf) = code \<and>
        is_file w (src_path pdf) \<and> src_path pdf \<in> set ps)"

text \<open>\<open>isinstance(template.get("airports"), list)\<close>.\<close>

definition is_json_list :: "json option \<Rightarrow> bool" where
  "is_json_list v = (case v of Some (JList _) \<Rightarrow> True | _ \<Rightarrow> False)"

text \<open>The normalized identifier of a template entry; empty when the entry is no dictionary.\<close>

definition template_id :: "json \<Rightarrow> string" where
  "template_id a = (case a of JObj d \<Rightarrow> template_iata d | _ \<Rightarrow> [])"

text \<open>
  The identifiers of the documents below a source directory: one for each regular
  file that \<open>rglob\<close> finds and whose identifier is not empty.
\<close>

definition scanned_ids :: "world \<Rightarrow> ppath \<Rightarrow> string list" where
  "scanned_ids w src =
     map safe_iata_from_filename
       (filter (\<lambda>p. is_file w p \<and> safe_iata_from_filename p \<noteq> []) (rglob_pdf w src))"





section \<open>A small installation, for the examples\<close>

definition ex_time :: datetime where
  "ex_time = \<lparr>year = 2024, month = 1, day = 2, hour = 3, minute = 4, second = 5\<rparr>"

definition ex_template :: json where
  "ex_template =
     JObj [(''airports'',
            JList [JObj [(''iata'', JStr '' jfk ''), (''name'', JStr ''Kennedy''), (''city'', JStr ''New York'')],
                   JObj [(''iata'', JStr ''LAX'')]])]"

definition ex_template_lax :: json where
  "ex_template_lax = JObj [(''airports'', JList [JObj [(''iata'', JStr ''LAX'')]])]"

definition ex_template_bad :: json where
  "ex_template_bad = JObj [(''airports'', JStr ''JFK'')]"

definition ex_env :: env where
  "ex_env =
     \<lparr>sha256_hex = (\<lambda>c. ''H'' @ c),
      json_loads = (\<lambda>c. if c = ''T'' then Some ex_template
                         else if c = ''L'' then Some ex_template_lax
                         else if c = ''B'' then Some ex_template_bad else None),
      json_dumps = py_repr,
      resolve = parse_path,
      now_build = ex_time, now_stamp = ex_time, now_write = ex_time\<rparr>"

definition ex_files :: "(string list \<times> node) list" where
  "ex_files =
     [([''src''], Dir),
      ([''src'', ''jfk.pdf''], File ''1'' ex_time),
      ([''src'', ''sub''], Dir),
      ([''src'', ''sub'', ''JFK.pdf''], File ''2'' ex_time),
      ([''empty''], Dir),
      ([''tpl.json''], File ''T'' ex_time),
      ([''lax.json''], File ''L'' ex_time),
      ([''bad.json''], File ''B'' ex_time)]"

definition ex_world :: world where
  "ex_world = \<lparr>files = ex_files, out = []\<rparr>"

text \<open>The files after \<open>/src/jfk.pdf\<close> has been published below \<open>/docs\<close>.\<close>

definition ex_published :: "(string list \<times> node) list" where
  "ex_published =
     ex_files @
       [([''docs''], Dir), ([''docs'', ''pdfs''], Dir), ([''docs'', ''pdfs'', ''JFK''], Dir),
        ([''docs'', ''pdfs'', ''JFK'', ''H1.pdf''], File ''1'' ex_time)]"

definition ex_src :: ppath where
  "ex_src = PPath True [''src'']"

definition ex_root :: ppath where
  "ex_root = PPath True [''docs'']"

definition ex_pdf :: PdfInfo where
  "ex_pdf = \<lparr>iata = ''JFK'', src_path = PPath True [''src'', ''jfk.pdf''], sha256 = ''H1'',
            size_bytes = 1, mtime = ex_time\<rparr>"

definition ex_entry :: "(string \<times> json) list" where
  "ex_entry = [(''iata'', JStr '' jfk ''), (''name'', JStr ''Kennedy''), (''city'', JStr ''New York'')]"

definition ex_tpl :: ppath where
  "ex_tpl = PPath True [''tpl.json'']"

definition ex_args :: args where
  "ex_args = \<lparr>arg_source_pdfs = ''/src'', arg_site_root = ''/docs'', arg_base_url = Some ''https://x.io/r'',
             arg_template = None, arg_timestamp = None\<rparr>"

text \<open>The same installation with a parser that reads every file as an empty JSON list.\<close>

definition ex_env_list :: env where
  "ex_env_list = ex_env\<lparr>json_loads := (\<lambda>c. Some (JList []))\<rparr>"

text \<open>A second installation: two documents, met by the scan in the order \<open>LAX\<close>, \<open>JFK\<close>.\<close>

definition ex2_template :: json where
  "ex2_template =
     JObj [(''airports'',
            JList [JObj [(''iata'', JStr ''lax'')], JObj [(''iata'', JStr ''ZZZ'')],
                   JObj [(''iata'', JStr ''jfk'')]])]"

definition ex2_env :: env where
  "ex2_env = ex_env\<lparr>json_loads := (\<lambda>c. Some ex2_template)\<rparr>"

definition ex2_world :: world where
  "ex2_world =
     \<lparr>files = [([''src''], Dir),
               ([''src'', ''a''], Dir),
               ([''src'', ''a'', ''lax.pdf''], File ''2'' ex_time),
               ([''src'', ''b''], Dir),
               ([''src'', ''b'', ''jfk.pdf''], File ''1'' ex_time),
               ([''tpl.json''], File ''T'' ex_time)],
      out = []\<rparr>"

definition ex2_pdfs :: "(string \<times> PdfInfo) list" where
  "ex2_pdfs =
     [(''LAX'', \<lparr>iata = ''LAX'', src_path = PPath True [''src'', ''a'', ''lax.pdf''], sha256 = ''H2'',
               size_bytes = 1, mtime = ex_time\<rparr>),
      (''JFK'', \<lparr>iata = ''JFK'', src_path = PPath True [''src'', ''b'', ''jfk.pdf''], sha256 = ''H1'',
               size_bytes = 1, mtime = ex_time\<rparr>)]"









section \<open>Basic facts about dictionaries and the file system\<close>

lemma map_of_dict_set: "map_of (dict_set k v d) k' = (if k' = k then Some v else map_of d k')"
  by (induction d) auto

lemma dict_get_dict_set: "dict_get (dict_set k v d) k' = (if k' = k then Some v else dict_get d k')"
  by (simp add: dict_get_def map_of_dict_set)

lemma dict_get_setdefault:
  "dict_get (setdefault k v d) k' =
     (if k' = k then (case dict_get d k of Some x \<Rightarrow> Some x | None \<Rightarrow> Some v) else dict_get d k')"
  by (auto simp: setdefault_def dict_get_def map_add_def split: option.splits)

lemma lookup_key_put:
  "lookup_key (put k n w) k' = (if k' = [] then Some Dir else if k' = k then Some n else lookup_key w k')"
  by (simp add: lookup_key_def put_def map_of_dict_set)

lemma lookup_key_root: "lookup_key w [] = Some Dir"
  by (simp add: lookup_key_def)

lemma lookup_key_print: "lookup_key (print l w) k = lookup_key w k"
  by (simp add: lookup_key_def print_def)

lemma lookup_key_remove:
  "lookup_key (remove k w) k' = (if k' = [] then Some Dir else if k' = k then None else lookup_key w k')"
proof -
  have "map_of (filter (\<lambda>kv. fst kv \<noteq> k) d) k' = (if k' = k then None else map_of d k')" for d :: "(string list \<times> node) list"
    by (induction d) auto
  then show ?thesis by (simp add: lookup_key_def remove_def)
qed

lemma canon_snoc: "canon (xs @ [c]) = (if c = ''..'' then butlast (canon xs) else canon xs @ [c])"
  by (simp add: canon_def)


lemma mkdirs_keeps:
  "mkdirs seen cs w = (r, w') \<Longrightarrow> lookup_key w k = Some n \<Longrightarrow> lookup_key w' k = Some n"
proof (induction cs arbitrary: seen w)
  case Nil then show ?case by simp
next
  case (Cons c cs)
  show ?case
  proof (cases "lookup_key w (canon (seen @ [c]))")
    case None
    with Cons.prems have "k \<noteq> canon (seen @ [c])" by auto
    with Cons.prems have "lookup_key (put (canon (seen @ [c])) Dir w) k = Some n"
      by (auto simp: lookup_key_put lookup_key_root)
    with Cons.IH [of "seen @ [c]" "put (canon (seen @ [c])) Dir w"] Cons.prems None
    show ?thesis by (simp add: Let_def)
  next
    case (Some nd)
    with Cons show ?thesis by (cases nd) (auto simp: Let_def)
  qed
qed


lemma lookup_print: "lookup (print l w) p = lookup w p"
  by (simp add: lookup_def lookup_key_print)

lemma copy2_keeps:
  "copy2 w src dst = (r, w') \<Longrightarrow> \<not> exists w dst \<Longrightarrow> lookup_key w k = Some n \<Longrightarrow> lookup_key w' k = Some n"
  by (auto simp: copy2_def Let_def exists_def is_dir_def lookup_def lookup_key_put lookup_key_root
      split: option.splits node.splits if_splits)


lemma copy2_exists:
  "copy2 w src dst = (Inr u, w') \<Longrightarrow> \<not> exists w dst \<Longrightarrow> lookup w' dst = lookup w src \<and> is_file w src"
  by (auto simp: copy2_def Let_def exists_def is_dir_def is_file_def lookup_def lookup_key_put
      lookup_key_root split: option.splits node.splits if_splits)

lemma copy_keeps:
  assumes "copy_pdf_to_immutable_path w root pdf = (r, w')" and "lookup_key w k = Some n"
  shows "lookup_key w' k = Some n"
proof -
  obtain r1 w1 where m: "mkdir_parents w (parent (pjoin_path root (rel_path pdf))) = (r1, w1)"
    by (cases "mkdir_parents w (parent (pjoin_path root (rel_path pdf)))")
  then have k1: "lookup_key w1 k = Some n"
    using assms(2) by (auto simp: mkdir_parents_def dest: mkdirs_keeps)
  show ?thesis
  proof (cases r1)
    case (Inl err)
    with assms(1) m k1 show ?thesis by (simp add: copy_pdf_to_immutable_path_def Let_def)
  next
    case (Inr u)
    show ?thesis
    proof (cases "exists w1 (pjoin_path root (rel_path pdf))")
      case True
      with assms(1) m k1 Inr show ?thesis by (simp add: copy_pdf_to_immutable_path_def Let_def)
    next
      case False
      obtain r2 w2 where c: "copy2 w1 (src_path pdf) (pjoin_path root (rel_path pdf)) = (r2, w2)"
        by (cases "copy2 w1 (src_path pdf) (pjoin_path root (rel_path pdf))")
      from copy2_keeps [OF c False k1] have "lookup_key w2 k = Some n" .
      with assms(1) m Inr False c show ?thesis
        by (cases r2) (auto simp: copy_pdf_to_immutable_path_def Let_def)
    qed
  qed
qed


lemma copy_url:
  "copy_pdf_to_immutable_path w root pdf = (Inr url, w') \<Longrightarrow> url = as_posix (rel_path pdf)"
  by (auto simp: copy_pdf_to_immutable_path_def Let_def split: prod.splits sum.splits if_splits)

lemma copy_exists:
  "copy_pdf_to_immutable_path w root pdf = (Inr url, w') \<Longrightarrow> exists w' (pjoin_path root (rel_path pdf))"
  by (auto simp: copy_pdf_to_immutable_path_def Let_def exists_def
      split: prod.splits sum.splits if_splits dest!: copy2_exists simp: is_file_def split: option.splits)

section \<open>Paths of the published files\<close>

lemma split_on_no_sep: "c \<notin> set s \<Longrightarrow> split_on c s = [s]"
  by (induction s) auto

lemma segs_component: "is_component s \<Longrightarrow> segs s = [s]"
  by (simp add: segs_def is_component_def split_on_no_sep)

lemma startswith_component: "is_component s \<Longrightarrow> \<not> startswith s ''/''"
  by (cases s) (auto simp: startswith_def is_component_def)

lemma pjoin_component: "is_component s \<Longrightarrow> pjoin p s = PPath (absolute p) (parts p @ [s])"
  by (simp add: pjoin_def pjoin_path_def parse_path_def segs_component startswith_component)






lemma exists_keeps: "lookup_key w (key p) = Some n \<Longrightarrow> exists w p"
  by (simp add: exists_def lookup_def)

lemma template_loop_result:
  "template_loop pdfs root tas acc w = (Inr res, w') \<Longrightarrow> res = acc @ template_entries pdfs tas"
proof (induction tas arbitrary: acc w)
  case Nil
  then show ?case by (simp add: template_entries_def List.map_filter_simps)
next
  case (Cons a tas)
  have step: "template_entries pdfs (a # tas) =
      (case template_match pdfs a of None \<Rightarrow> [] | Some (d, code, pdf) \<Rightarrow> [template_airport d code (as_posix (rel_path pdf)) pdf])
      @ template_entries pdfs tas"
    by (auto simp: template_entries_def List.map_filter_simps split: option.splits)
  show ?case
  proof (cases "template_match pdfs a")
    case None
    with Cons.prems have "template_loop pdfs root tas acc w = (Inr res, w') \<or>
        (\<exists>l. template_loop pdfs root tas acc (print l w) = (Inr res, w'))"
      by (auto simp: template_match_def Let_def split: json.splits if_splits option.splits)
    with Cons.IH None step show ?thesis by auto
  next
    case (Some m)
    obtain d code pdf where m: "m = (d, code, pdf)" by (cases m) auto
    from Some m have a: "a = JObj d" "code = template_iata d" "code \<noteq> []" "dict_get pdfs code = Some pdf"
      by (auto simp: template_match_def Let_def split: json.splits if_splits option.splits)
    from Cons.prems a obtain url w1 where
      c: "copy_pdf_to_immutable_path w root pdf = (Inr url, w1)" and
      r: "template_loop pdfs root tas (acc @ [template_airport d code url pdf]) w1 = (Inr res, w')"
      by (auto simp: Let_def split: prod.splits sum.splits)
    from copy_url [OF c] Cons.IH [OF r] Some m step show ?thesis by simp
  qed
qed

lemma minimal_loop_result:
  "minimal_loop root items acc w = (Inr res, w') \<Longrightarrow>
   res = acc @ map (\<lambda>(code, pdf). minimal_airport code (as_posix (rel_path pdf)) pdf) items"
proof (induction items arbitrary: acc w)
  case Nil
  then show ?case by simp
next
  case (Cons it items)
  obtain code pdf where it: "it = (code, pdf)" by (cases it)
  from Cons.prems it obtain url w1 where
    c: "copy_pdf_to_immutable_path w root pdf = (Inr url, w1)" and
    r: "minimal_loop root items (acc @ [minimal_airport code url pdf]) w1 = (Inr res, w')"
    by (auto split: prod.splits sum.splits)
  from copy_url [OF c] Cons.IH [OF r] it show ?case by simp
qed

section \<open>The loops of the builder\<close>

lemma exists_iff: "exists w p \<longleftrightarrow> (\<exists>n. lookup_key w (key p) = Some n)"
  by (simp add: exists_def lookup_def)

lemma copy_exists_keeps:
  "copy_pdf_to_immutable_path w root pdf = (r, w') \<Longrightarrow> exists w p \<Longrightarrow> exists w' p"
  by (auto simp: exists_iff dest: copy_keeps)

lemma template_loop_keeps:
  "template_loop pdfs root tas acc w = (r, w') \<Longrightarrow> lookup_key w k = Some n \<Longrightarrow> lookup_key w' k = Some n"
proof (induction tas arbitrary: acc w)
  case Nil
  then show ?case by simp
next
  case (Cons a tas)
  show ?case
  proof (cases "template_match pdfs a")
    case None
    with Cons.prems have "template_loop pdfs root tas acc w = (r, w') \<or>
        (\<exists>l. template_loop pdfs root tas acc (print l w) = (r, w'))"
      by (auto simp: template_match_def Let_def split: json.splits if_splits option.splits)
    with Cons.IH Cons.prems(2) show ?thesis by (auto simp: lookup_key_print)
  next
    case (Some m)
    obtain d code pdf where m: "m = (d, code, pdf)" by (cases m) auto
    from Some m have a: "a = JObj d" "code = template_iata d" "code \<noteq> []" "dict_get pdfs code = Some pdf"
      by (auto simp: template_match_def Let_def split: json.splits if_splits option.splits)
    obtain r1 w1 where c: "copy_pdf_to_immutable_path w root pdf = (r1, w1)"
      by (cases "copy_pdf_to_immutable_path w root pdf")
    from copy_keeps [OF c Cons.prems(2)] have k1: "lookup_key w1 k = Some n" .
    show ?thesis
    proof (cases r1)
      case (Inl err)
      with Cons.prems(1) a c k1 show ?thesis by (simp add: Let_def)
    next
      case (Inr url)
      with Cons.prems(1) a c have
        "template_loop pdfs root tas (acc @ [template_airport d code url pdf]) w1 = (r, w')"
        by (simp add: Let_def)
      from Cons.IH [OF this k1] show ?thesis .
    qed
  qed
qed

lemma template_loop_published:
  "template_loop pdfs root tas acc w = (Inr res, w') \<Longrightarrow> a \<in> set tas \<Longrightarrow>
   template_match pdfs a = Some (d, code, pdf) \<Longrightarrow> exists w' (dst_path root pdf)"
proof (induction tas arbitrary: acc w)
  case Nil
  then show ?case by simp
next
  case (Cons b tas)
  show ?case
  proof (cases "template_match pdfs b")
    case None
    with Cons.prems(1) have "template_loop pdfs root tas acc w = (Inr res, w') \<or>
        (\<exists>l. template_loop pdfs root tas acc (print l w) = (Inr res, w'))"
      by (auto simp: template_match_def Let_def split: json.splits if_splits option.splits)
    moreover from None Cons.prems have "a \<in> set tas" by auto
    ultimately show ?thesis using Cons.IH Cons.prems(3) by blast
  next
    case (Some m)
    obtain d' code' pdf' where m: "m = (d', code', pdf')" by (cases m) auto
    from Some m have b: "b = JObj d'" "code' = template_iata d'" "code' \<noteq> []" "dict_get pdfs code' = Some pdf'"
      by (auto simp: template_match_def Let_def split: json.splits if_splits option.splits)
    from Cons.prems(1) b obtain url w1 where
      c: "copy_pdf_to_immutable_path w root pdf' = (Inr url, w1)" and
      r: "template_loop pdfs root tas (acc @ [template_airport d' code' url pdf']) w1 = (Inr res, w')"
      by (auto simp: Let_def split: prod.splits sum.splits)
    show ?thesis
    proof (cases "a = b")
      case True
      with Some m Cons.prems(3) have "pdf' = pdf" by simp
      with copy_exists [OF c] obtain n where "lookup_key w1 (key (dst_path root pdf)) = Some n"
        by (auto simp: exists_iff dst_path_def)
      from template_loop_keeps [OF r this] show ?thesis by (auto simp: exists_iff)
    next
      case False
      with Cons.prems(2) have "a \<in> set tas" by simp
      from Cons.IH [OF r this Cons.prems(3)] show ?thesis .
    qed
  qed
qed

lemma minimal_loop_keeps:
  "minimal_loop root items acc w = (r, w') \<Longrightarrow> lookup_key w k = Some n \<Longrightarrow> lookup_key w' k = Some n"
proof (induction items arbitrary: acc w)
  case Nil
  then show ?case by simp
next
  case (Cons it items)
  obtain code pdf where it: "it = (code, pdf)" by (cases it)
  obtain r1 w1 where c: "copy_pdf_to_immutable_path w root pdf = (r1, w1)"
    by (cases "copy_pdf_to_immutable_path w root pdf")
  from copy_keeps [OF c Cons.prems(2)] have k1: "lookup_key w1 k = Some n" .
  show ?case
  proof (cases r1)
    case (Inl err)
    with Cons.prems(1) it c k1 show ?thesis by simp
  next
    case (Inr url)
    with Cons.prems(1) it c have
      "minimal_loop root items (acc @ [minimal_airport code url pdf]) w1 = (r, w')" by simp
    from Cons.IH [OF this k1] show ?thesis .
  qed
qed

lemma minimal_loop_published:
  "minimal_loop root items acc w = (Inr res, w') \<Longrightarrow> (code, pdf) \<in> set items \<Longrightarrow>
   exists w' (dst_path root pdf)"
proof (induction items arbitrary: acc w)
  case Nil
  then show ?case by simp
next
  case (Cons it items)
  obtain code' pdf' where it: "it = (code', pdf')" by (cases it)
  from Cons.prems(1) it obtain url w1 where
    c: "copy_pdf_to_immutable_path w root pdf' = (Inr url, w1)" and
    r: "minimal_loop root items (acc @ [minimal_airport code' url pdf']) w1 = (Inr res, w')"
    by (auto split: prod.splits sum.splits)
  show ?case
  proof (cases "(code, pdf) = it")
    case True
    with it copy_exists [OF c] obtain n where "lookup_key w1 (key (dst_path root pdf)) = Some n"
      by (auto simp: exists_iff dst_path_def)
    from minimal_loop_keeps [OF r this] show ?thesis by (auto simp: exists_iff)
  next
    case False
    with Cons.prems(2) have "(code, pdf) \<in> set items" by auto
    from Cons.IH [OF r this] show ?thesis .
  qed
qed

lemma manifest_airports_finish: "manifest_airports (finish_manifest e base_url xs) = xs"
  by (auto simp: manifest_airports_def finish_manifest_def Let_def dict_get_def split: option.splits)

lemma build_manifest_template:
  assumes "build_manifest e w pdfs root base_url (Some tp) = (Inr m, w')"
  obtains t tas where "load_json e w tp = Inr (JObj t)" "dict_get t ''airports'' = Some (JList tas)"
    "template_loop pdfs root tas [] w = (Inr (template_entries pdfs tas), w')"
    "m = finish_manifest e base_url (template_entries pdfs tas)"
proof -
  from assms obtain t where t: "load_json e w tp = Inr (JObj t)"
    by (auto simp: build_manifest_def split: sum.splits json.splits)
  with assms obtain tas where tas: "dict_get t ''airports'' = Some (JList tas)"
    by (auto simp: build_manifest_def split: option.splits json.splits)
  with assms t obtain res where r: "template_loop pdfs root tas [] w = (Inr res, w')"
    "m = finish_manifest e base_url res"
    by (auto simp: build_manifest_def split: prod.splits sum.splits)
  from template_loop_result [OF r(1)] have "res = template_entries pdfs tas" by simp
  with t tas r that show thesis by blast
qed

lemma build_manifest_minimal:
  assumes "build_manifest e w pdfs root base_url None = (Inr m, w')"
  shows "minimal_loop root (sort_key fst pdfs) [] w =
           (Inr (map (\<lambda>(code, pdf). minimal_airport code (as_posix (rel_path pdf)) pdf) (sort_key fst pdfs)), w')
         \<and> m = finish_manifest e base_url
                 (map (\<lambda>(code, pdf). minimal_airport code (as_posix (rel_path pdf)) pdf) (sort_key fst pdfs))"
proof -
  from assms obtain res where r: "minimal_loop root (sort_key fst pdfs) [] w = (Inr res, w')"
    "m = finish_manifest e base_url res"
    by (auto simp: build_manifest_def split: prod.splits sum.splits)
  from minimal_loop_result [OF r(1)] r show ?thesis by simp
qed

section \<open>The loop of the scanner\<close>

lemma is_file_print: "is_file (print l w) p = is_file w p"
  by (simp add: is_file_def lookup_print)

lemma sha256_file_print: "sha256_file e (print l w) p = sha256_file e w p"
  by (simp add: sha256_file_def lookup_print)

lemma files_print: "files (print l w) = files w"
  by (simp add: print_def)

lemma out_print: "out (print l w) = out w @ [l]"
  by (simp add: print_def)

lemma dict_set_fresh: "dict_get d k = None \<Longrightarrow> dict_set k v d = d @ [(k, v)]"
  by (induction d) (auto simp: dict_get_def)

text \<open>One step of the scan, as a case distinction.\<close>

lemma scan_loop_step:
  "scan_loop e (p # ps) acc w =
     (if is_file w p \<and> safe_iata_from_filename p \<noteq> []
      then (case dict_get acc (safe_iata_from_filename p) of
              Some kept \<Rightarrow>
                scan_loop e ps acc
                  (print (duplicate_warning (safe_iata_from_filename p) (src_path kept) p) w)
            | None \<Rightarrow>
                scan_loop e ps
                  (acc @ [(safe_iata_from_filename p,
                           \<lparr>iata = safe_iata_from_filename p, src_path = p,
                            sha256 = sha256_file e w p,
                            size_bytes = int (length (the (read_text w p))),
                            mtime = (case lookup w p of Some (File c t) \<Rightarrow> t)\<rparr>)])
                  w)
      else scan_loop e ps acc w)"
  by (auto simp: is_file_def read_text_def Let_def dict_set_fresh split: option.splits node.splits)

lemma scan_loop_files: "scan_loop e ps acc w = (pdfs, w') \<Longrightarrow> files w' = files w"
proof (induction ps arbitrary: acc w)
  case Nil
  then show ?case by simp
next
  case (Cons p ps)
  from Cons.prems show ?case
    unfolding scan_loop_step
    by (auto split: if_splits option.splits dest!: Cons.IH simp: files_print)
qed

lemma scan_loop_out: "scan_loop e ps acc w = (pdfs, w') \<Longrightarrow> set (out w) \<subseteq> set (out w')"
proof (induction ps arbitrary: acc w)
  case Nil
  then show ?case by simp
next
  case (Cons p ps)
  from Cons.prems show ?case
    unfolding scan_loop_step
    by (auto split: if_splits option.splits dest!: Cons.IH simp: out_print)
qed

lemma scan_loop_scanned:
  "scan_loop e ps acc w = (pdfs, w') \<Longrightarrow> \<forall>x \<in> set acc. scanned w qs x \<Longrightarrow> set ps \<subseteq> set qs \<Longrightarrow>
   \<forall>x \<in> set pdfs. scanned w qs x"
proof (induction ps arbitrary: acc w)
  case Nil
  then show ?case by simp
next
  case (Cons p ps)
  have pr: "scanned (print l w) qs = scanned w qs" for l
    by (auto simp: scanned_def fun_eq_iff is_file_print)
  from Cons.prems show ?case
    unfolding scan_loop_step
    by (auto split: if_splits option.splits dest!: Cons.IH simp: pr) (auto simp: scanned_def)
qed

lemma scan_loop_distinct:
  "scan_loop e ps acc w = (pdfs, w') \<Longrightarrow> distinct (map fst acc) \<Longrightarrow> distinct (map fst pdfs)"
proof (induction ps arbitrary: acc w)
  case Nil
  then show ?case by simp
next
  case (Cons p ps)
  have fresh: "dict_get acc k = None \<Longrightarrow> k \<notin> fst ` set acc" for k
    by (simp add: dict_get_def map_of_eq_None_iff)
  from Cons.prems show ?case
    unfolding scan_loop_step
    by (auto split: if_splits option.splits dest!: Cons.IH dest: fresh)
qed

lemma dict_get_append_fresh:
  "dict_get (d @ [(k, v)]) k' = (case dict_get d k' of Some x \<Rightarrow> Some x | None \<Rightarrow> if k' = k then Some v else None)"
  by (auto simp: dict_get_def map_add_def split: option.splits)

text \<open>An identifier that is taken keeps its record, and every later file with it is reported.\<close>

lemma scan_loop_kept:
  "scan_loop e ps acc w = (pdfs, w') \<Longrightarrow> dict_get acc code = Some kept \<Longrightarrow>
   dict_get pdfs code = Some kept \<and>
   (\<forall>q \<in> set ps. is_file w q \<and> safe_iata_from_filename q = code \<and> code \<noteq> [] \<longrightarrow>
      duplicate_warning code (src_path kept) q \<in> set (out w'))"
proof (induction ps arbitrary: acc w)
  case Nil
  then show ?case by simp
next
  case (Cons p ps)
  show ?case
  proof (cases "is_file w p \<and> safe_iata_from_filename p \<noteq> []")
    case False
    with Cons.prems have "scan_loop e ps acc w = (pdfs, w')" by (simp add: scan_loop_step del: scan_loop.simps)
    from Cons.IH [OF this Cons.prems(2)] False show ?thesis by auto
  next
    case True
    show ?thesis
    proof (cases "dict_get acc (safe_iata_from_filename p)")
      case None
      let ?acc = "acc @ [(safe_iata_from_filename p,
                           \<lparr>iata = safe_iata_from_filename p, src_path = p,
                            sha256 = sha256_file e w p,
                            size_bytes = int (length (the (read_text w p))),
                            mtime = (case lookup w p of Some (File c t) \<Rightarrow> t)\<rparr>)]"
      from Cons.prems True None have r: "scan_loop e ps ?acc w = (pdfs, w')"
        by (simp add: scan_loop_step del: scan_loop.simps)
      from Cons.prems(2) have "dict_get ?acc code = Some kept"
        by (simp add: dict_get_append_fresh)
      from Cons.IH [OF r this] None Cons.prems(2) show ?thesis by auto
    next
      case (Some k0)
      let ?w = "print (duplicate_warning (safe_iata_from_filename p) (src_path k0) p) w"
      from Cons.prems True Some have r: "scan_loop e ps acc ?w = (pdfs, w')"
        by (simp add: scan_loop_step del: scan_loop.simps)
      from scan_loop_out [OF r] have "duplicate_warning (safe_iata_from_filename p) (src_path k0) p \<in> set (out w')"
        by (auto simp: out_print)
      with Cons.IH [OF r Cons.prems(2)] Some Cons.prems(2) show ?thesis
        by (auto simp: is_file_print)
    qed
  qed
qed

text \<open>An identifier that is free goes to the first regular file of the list that has it.\<close>

lemma scan_loop_first:
  "scan_loop e ps acc w = (pdfs, w') \<Longrightarrow> dict_get acc code = None \<Longrightarrow> code \<noteq> [] \<Longrightarrow>
   (case List.find (\<lambda>p. is_file w p \<and> safe_iata_from_filename p = code) ps of
      None \<Rightarrow> dict_get pdfs code = None
    | Some p \<Rightarrow>
        (\<exists>pdf. dict_get pdfs code = Some pdf \<and> src_path pdf = p \<and>
           (\<forall>q \<in> set ps. is_file w q \<and> safe_iata_from_filename q = code \<and> q \<noteq> p \<longrightarrow>
              duplicate_warning code p q \<in> set (out w'))))"
proof (induction ps arbitrary: acc w)
  case Nil
  then show ?case by simp
next
  case (Cons p ps)
  show ?case
  proof (cases "is_file w p \<and> safe_iata_from_filename p \<noteq> []")
    case False
    with Cons.prems have "scan_loop e ps acc w = (pdfs, w')" by (simp add: scan_loop_step del: scan_loop.simps)
    from Cons.IH [OF this Cons.prems(2,3)] False Cons.prems(3) show ?thesis
      by (auto split: option.splits)
  next
    case True
    show ?thesis
    proof (cases "dict_get acc (safe_iata_from_filename p)")
      case None
      let ?pdf = "\<lparr>iata = safe_iata_from_filename p, src_path = p,
                            sha256 = sha256_file e w p,
                            size_bytes = int (length (the (read_text w p))),
                            mtime = (case lookup w p of Some (File c t) \<Rightarrow> t)\<rparr>"
      let ?acc = "acc @ [(safe_iata_from_filename p, ?pdf)]"
      from Cons.prems True None have r: "scan_loop e ps ?acc w = (pdfs, w')"
        by (simp add: scan_loop_step del: scan_loop.simps)
      show ?thesis
      proof (cases "safe_iata_from_filename p = code")
        case same: True
        with Cons.prems(2) have "dict_get ?acc code = Some ?pdf"
          by (simp add: dict_get_append_fresh)
        from scan_loop_kept [OF r this] True same show ?thesis by auto
      next
        case other: False
        with Cons.prems(2) have "dict_get ?acc code = None"
          by (simp add: dict_get_append_fresh)
        from Cons.IH [OF r this Cons.prems(3)] other show ?thesis
          by (auto split: option.splits)
      qed
    next
      case (Some k0)
      let ?w = "print (duplicate_warning (safe_iata_from_filename p) (src_path k0) p) w"
      from Cons.prems True Some have r: "scan_loop e ps acc ?w = (pdfs, w')"
        by (simp add: scan_loop_step del: scan_loop.simps)
      from Some Cons.prems(2) have "safe_iata_from_filename p \<noteq> code" by auto
      with Cons.IH [OF r Cons.prems(2,3)] show ?thesis
        by (auto simp: is_file_print split: option.splits)
    qed
  qed
qed



section \<open>The example installation\<close>

lemma ex_parse: "parse_path ''/src'' = ex_src" "parse_path ''/docs'' = ex_root"
  by (simp_all add: parse_path_def segs_def startswith_def ex_src_def ex_root_def)

lemma ex_scan:
  "scan_pdfs ex_env ex_world ex_src =
     (Inr [(''JFK'', ex_pdf)],
      \<lparr>files = ex_files,
       out = [duplicate_warning ''JFK'' (PPath True [''src'', ''jfk.pdf''])
                (PPath True [''src'', ''sub'', ''JFK.pdf''])]\<rparr>)"
  by code_simp

lemma ex_copy:
  "copy_pdf_to_immutable_path \<lparr>files = ex_files, out = lines\<rparr> ex_root ex_pdf =
     (Inr ''pdfs/JFK/H1.pdf'', \<lparr>files = ex_published, out = lines\<rparr>)"
  by (simp add: copy_pdf_to_immutable_path_def rel_path_def pjoin_def pjoin_path_def parse_path_def
      segs_def startswith_def ex_pdf_def ex_files_def ex_published_def ex_root_def
      mkdir_parents_def parent_def lookup_key_def canon_def put_def Let_def exists_def lookup_def key_def
      copy2_def is_dir_def name_def as_posix_def)

lemma ex_build_minimal:
  "build_manifest ex_env \<lparr>files = ex_files, out = lines\<rparr> [(''JFK'', ex_pdf)] ex_root base_url None =
     (Inr (finish_manifest ex_env base_url [minimal_airport ''JFK'' ''pdfs/JFK/H1.pdf'' ex_pdf]),
      \<lparr>files = ex_published, out = lines\<rparr>)"
  by (simp add: build_manifest_def ex_copy)


lemma ex_main: "fst (main ex_env ex_args ex_world) = Inr 0"
  by code_simp

lemma ex_template_iata: "template_iata ex_entry = ''JFK''" "template_iata [(''iata'', JStr ''LAX'')] = ''LAX''"
  by code_simp+

lemma ex_load: "load_json ex_env \<lparr>files = ex_files, out = lines\<rparr> ex_tpl
    = Inr (JObj [(''airports'', JList [JObj ex_entry, JObj [(''iata'', JStr ''LAX'')]])])"
  by (simp add: load_json_def lookup_def key_def canon_def lookup_key_def ex_files_def ex_tpl_def
      ex_env_def ex_template_def ex_entry_def)

lemma ex_template_loop:
  "template_loop [(''JFK'', ex_pdf)] ex_root [JObj ex_entry, JObj [(''iata'', JStr ''LAX'')]] []
      \<lparr>files = ex_files, out = lines\<rparr> =
     (Inr [template_airport ex_entry ''JFK'' ''pdfs/JFK/H1.pdf'' ex_pdf],
      \<lparr>files = ex_published, out = lines @ [missing_pdf_warning ''LAX'']\<rparr>)"
  by (simp add: ex_template_iata dict_get_def ex_copy print_def)

lemma ex_build_template:
  "build_manifest ex_env \<lparr>files = ex_files, out = lines\<rparr> [(''JFK'', ex_pdf)] ex_root base_url (Some ex_tpl) =
     (Inr (finish_manifest ex_env base_url [template_airport ex_entry ''JFK'' ''pdfs/JFK/H1.pdf'' ex_pdf]),
      \<lparr>files = ex_published, out = lines @ [missing_pdf_warning ''LAX'']\<rparr>)"
  by (simp add: build_manifest_def ex_load ex_template_loop dict_get_def del: template_loop.simps)


lemma ex_main_dots:
  "fst (main ex_env (ex_args\<lparr>arg_timestamp := Some ''x/../../manifest''\<rparr>) ex_world) = Inr 0"
  by code_simp

section \<open>Entries and the root object\<close>

lemma field_template_airport:
  "field (template_airport d code url pdf) k =
     (if k = ''pdf'' then Some (pdf_block url pdf) else dict_get (normalize_airport_dict d code) k)"
  by (simp add: field_def template_airport_def dict_get_dict_set)

lemma dict_get_normalize:
  "dict_get (normalize_airport_dict d code) k =
     (if k = ''iata'' then Some (JStr code)
      else case dict_get d k of
             Some v \<Rightarrow> Some v
           | None \<Rightarrow> if k = ''icao'' \<or> k = ''name'' then Some (JStr code)
                     else if k = ''city'' then Some (JStr []) else None)"
  by (auto simp: normalize_airport_dict_def dict_get_setdefault dict_get_dict_set split: option.splits)

lemma field_finish_base_url:
  "field (finish_manifest e base_url xs) ''baseURL'' =
     (case base_url of
        None \<Rightarrow> None
      | Some url \<Rightarrow> if url = [] then None else Some (JStr (ensure_trailing_slash url)))"
  by (auto simp: field_def finish_manifest_def Let_def dict_get_def split: option.splits)

lemma build_manifest_finish:
  "build_manifest e w pdfs root base_url tpl = (Inr m, w') \<Longrightarrow>
   \<exists>xs. m = finish_manifest e base_url xs"
  by (cases tpl) (auto simp: build_manifest_def split: prod.splits sum.splits json.splits option.splits)

lemma map_insort_key: "map f (insort_key f x xs) = insort (f x) (map f xs)"
  by (induction xs) auto

lemma map_sort_key: "map f (sort_key f xs) = sort (map f xs)"
  by (induction xs) (auto simp: map_insort_key)

lemma field_minimal_airport:
  "field (minimal_airport code url pdf) k =
     (if k = ''iata'' \<or> k = ''icao'' \<or> k = ''name'' then Some (JStr code)
      else if k = ''city'' then Some (JStr [])
      else if k = ''pdf'' then Some (pdf_block url pdf) else None)"
  by (simp add: field_def minimal_airport_def dict_get_def)

lemma template_entries_Nil: "template_entries pdfs [] = []"
  by (simp add: template_entries_def)

lemma template_entries_Cons:
  "template_entries pdfs (a # tas) =
     (case template_match pdfs a of
        None \<Rightarrow> []
      | Some (d, code, pdf) \<Rightarrow> [template_airport d code (as_posix (rel_path pdf)) pdf])
     @ template_entries pdfs tas"
  by (auto simp: template_entries_def split: option.splits)

lemma template_match_Some:
  "template_match pdfs a = Some (d, code, pdf) \<longleftrightarrow>
     a = JObj d \<and> code = template_iata d \<and> code \<noteq> [] \<and> dict_get pdfs code = Some pdf"
  by (auto simp: template_match_def Let_def split: json.splits option.splits)

lemma template_match_None:
  "template_match pdfs a = None \<longleftrightarrow> template_id a = [] \<or> dict_get pdfs (template_id a) = None"
  by (auto simp: template_match_def template_id_def Let_def split: json.splits option.splits)

lemma template_match_id: "template_match pdfs a = Some (d, code, pdf) \<Longrightarrow> template_id a = code"
  by (auto simp: template_match_Some template_id_def)

lemma template_entries_ids:
  "map (\<lambda>x. field x ''iata'') (template_entries pdfs tas) =
   map (\<lambda>c. Some (JStr c)) (filter (\<lambda>c. c \<noteq> [] \<and> dict_get pdfs c \<noteq> None) (map template_id tas))"
proof (induction tas)
  case Nil
  show ?case by (simp add: template_entries_Nil)
next
  case (Cons a tas)
  show ?case
  proof (cases "template_match pdfs a")
    case None
    then have "template_entries pdfs (a # tas) = template_entries pdfs tas"
      by (simp add: template_entries_Cons)
    moreover from None have "template_id a = [] \<or> dict_get pdfs (template_id a) = None"
      by (simp add: template_match_None)
    ultimately show ?thesis using Cons by auto
  next
    case (Some m)
    obtain d code pdf where m: "m = (d, code, pdf)" by (cases m) auto
    from Some m have "template_id a = code" "code \<noteq> []" "dict_get pdfs code = Some pdf"
      by (auto simp: template_match_Some template_id_def)
    with Cons Some m show ?thesis
      by (simp add: template_entries_Cons field_template_airport dict_get_normalize)
  qed
qed

lemma template_entries_elem:
  "x \<in> set (template_entries pdfs tas) \<longleftrightarrow>
     (\<exists>a \<in> set tas. \<exists>d code pdf. template_match pdfs a = Some (d, code, pdf)
        \<and> x = template_airport d code (as_posix (rel_path pdf)) pdf)"
proof -
  have "set (List.map_filter f xs) = {y. \<exists>x \<in> set xs. f x = Some y}" for f :: "json \<Rightarrow> json option" and xs
    by (induction xs) (auto split: option.splits)
  then show ?thesis
    by (auto simp: template_entries_def)
qed




lemma scan_pdfs_scanned:
  assumes "scan_pdfs e w src = (Inr pdfs, w1)"
  shows "files w1 = files w" and "\<forall>x \<in> set pdfs. scanned w (rglob_pdf w src) x"
    and "distinct (map fst pdfs)"
proof -
  from assms have l: "scan_loop e (sorted_paths (rglob_pdf w src)) [] w = (pdfs, w1)"
    by (auto simp: scan_pdfs_def split: if_splits prod.splits)
  from scan_loop_files [OF l] show "files w1 = files w" .
  from scan_loop_scanned [OF l, of "rglob_pdf w src"]
  show "\<forall>x \<in> set pdfs. scanned w (rglob_pdf w src) x"
    by (simp add: sorted_paths_def)
  from scan_loop_distinct [OF l] show "distinct (map fst pdfs)" by simp
qed

lemma manifest_entries_cases:
  assumes "build_manifest e w pdfs root base_url tpl = (Inr m, w')"
    and "x \<in> set (manifest_airports m)"
  shows "\<exists>code pdf. (code, pdf) \<in> set pdfs \<and> field x ''iata'' = Some (JStr code)
           \<and> field x ''pdf'' = Some (pdf_block (as_posix (rel_path pdf)) pdf)
           \<and> exists w' (dst_path root pdf)"
proof (cases tpl)
  case None
  from build_manifest_minimal [OF assms(1) [unfolded None]] assms(2)
  obtain code pdf where cp: "(code, pdf) \<in> set pdfs"
    and x: "x = minimal_airport code (as_posix (rel_path pdf)) pdf"
    and r: "minimal_loop root (sort_key fst pdfs) [] w =
           (Inr (map (\<lambda>(code, pdf). minimal_airport code (as_posix (rel_path pdf)) pdf) (sort_key fst pdfs)), w')"
    by (auto simp: manifest_airports_finish)
  from minimal_loop_published [OF r, of code pdf] cp have "exists w' (dst_path root pdf)" by simp
  with cp x show ?thesis by (auto simp: field_minimal_airport)
next
  case (Some tp)
  from assms(1) [unfolded Some] obtain t tas where
    r: "template_loop pdfs root tas [] w = (Inr (template_entries pdfs tas), w')"
    and m: "m = finish_manifest e base_url (template_entries pdfs tas)"
    by (rule build_manifest_template)
  from assms(2) m obtain a d code pdf where a: "a \<in> set tas" "template_match pdfs a = Some (d, code, pdf)"
    and x: "x = template_airport d code (as_posix (rel_path pdf)) pdf"
    by (auto simp: manifest_airports_finish template_entries_elem)
  from template_loop_published [OF r a] have "exists w' (dst_path root pdf)" .
  moreover from a(2) have "(code, pdf) \<in> set pdfs"
    by (auto simp: template_match_Some dict_get_def dest: map_of_SomeD)
  ultimately show ?thesis using x
    by (auto simp: field_template_airport dict_get_normalize)
qed




section \<open>The writer\<close>

lemma read_text_iff: "read_text w p = Some c \<longleftrightarrow> (\<exists>t. lookup_key w (key p) = Some (File c t))"
  by (auto simp: read_text_def lookup_def split: option.splits node.splits)

lemma mkdir_parents_keeps:
  "mkdir_parents w p = (r, w') \<Longrightarrow> lookup_key w k = Some n \<Longrightarrow> lookup_key w' k = Some n"
  by (auto simp: mkdir_parents_def dest: mkdirs_keeps)

lemma name_suffix: "take (length (name p) - length (suffix p)) (name p) @ suffix p = name p"
proof -
  have "take (length nm - length (drop i nm)) nm @ drop i nm = nm" if "i < length nm" for i and nm :: string
    using that by simp
  then show ?thesis
    by (auto simp: suffix_def Let_def split: option.splits)
qed

lemma parts_tmp:
  "parts (with_suffix p (suffix p @ ''.tmp'')) = butlast (parts p) @ [name p @ ''.tmp'']"
  using name_suffix [of p] by (simp add: with_suffix_def flip: append_assoc)

lemma key_tmp: "key (with_suffix p (suffix p @ ''.tmp'')) = key (parent p) @ [name p @ ''.tmp'']"
proof -
  have "name p @ ''.tmp'' \<noteq> ''..''"
    by (auto simp: append_eq_Cons_conv)
  then show ?thesis by (simp add: key_def parts_tmp canon_snoc parent_def)
qed

text \<open>A successful write leaves the text at the path, and every other file as it was.\<close>

lemma write_json_text:
  assumes "write_json e w path obj = (Inr u, w')"
  shows "read_text w' path = Some (json_dumps e obj @ [CHR 0x0A])"
proof -
  from assms obtain w1 where m: "mkdir_parents w (parent path) = (Inr (), w1)"
    by (auto simp: write_json_def split: prod.splits sum.splits)
  let ?tmp = "with_suffix path (suffix path @ ''.tmp'')"
  let ?f = "File (json_dumps e obj @ [CHR 0x0A]) (now_write e)"
  let ?w2 = "put (key ?tmp) ?f w1"
  from assms m have nd: "\<not> is_dir ?w2 path" and w': "w' = put (key path) ?f (remove (key ?tmp) ?w2)"
    by (auto simp: write_json_def Let_def split: if_splits)
  from nd have "key path \<noteq> []"
    by (auto simp: is_dir_def lookup_def lookup_key_root)
  with w' show ?thesis by (simp add: read_text_iff lookup_key_put)
qed

lemma write_json_keeps:
  assumes "write_json e w path obj = (Inr u, w')"
    and "read_text w q = Some c"
    and "key q \<noteq> key path"
    and "key q \<noteq> key (parent path) @ [name path @ ''.tmp'']"
  shows "read_text w' q = Some c"
proof -
  from assms(1) obtain w1 where m: "mkdir_parents w (parent path) = (Inr (), w1)"
    by (auto simp: write_json_def split: prod.splits sum.splits)
  let ?tmp = "with_suffix path (suffix path @ ''.tmp'')"
  let ?f = "File (json_dumps e obj @ [CHR 0x0A]) (now_write e)"
  let ?w2 = "put (key ?tmp) ?f w1"
  from assms(1) m have w': "w' = put (key path) ?f (remove (key ?tmp) ?w2)"
    by (auto simp: write_json_def Let_def split: if_splits)
  from assms(2) obtain t where "lookup_key w (key q) = Some (File c t)"
    by (auto simp: read_text_iff)
  from mkdir_parents_keeps [OF m this] have k1: "lookup_key w1 (key q) = Some (File c t)" .
  then have "key q \<noteq> []" by (auto simp: lookup_key_root)
  with k1 w' assms(3,4) show ?thesis
    by (simp add: read_text_iff lookup_key_put lookup_key_remove key_tmp)
qed

lemma read_text_print: "read_text (print l w) p = read_text w p"
  by (simp add: read_text_def lookup_print)

lemma key_latest: "key (latest_manifest_path root) = key root @ [''manifest.json'']"
  by (simp add: latest_manifest_path_def pjoin_def pjoin_path_def parse_path_def segs_def
      startswith_def key_def canon_snoc)

text \<open>Both manifests of a successful run hold the serialization of the manifest that was built.\<close>

lemma main_writes_the_same_text:
  assumes "main e a w = (Inr r, w')"
  shows "\<exists>pdfs w1 manifest w2.
           scan_pdfs e w (resolve e (arg_source_pdfs a)) = (Inr pdfs, w1)
         \<and> build_manifest e w1 pdfs (resolve e (arg_site_root a)) (arg_base_url a)
              (case arg_template a of
                 Some t \<Rightarrow> if t \<noteq> [] then Some (resolve e t) else None
               | None \<Rightarrow> None) = (Inr manifest, w2)
         \<and> read_text w' (latest_manifest_path (resolve e (arg_site_root a)))
             = Some (json_dumps e manifest @ [CHR 0x0A])
         \<and> read_text w' (versioned_manifest_path (resolve e (arg_site_root a)) (snapshot_stamp e a))
             = Some (json_dumps e manifest @ [CHR 0x0A])"
proof -
  let ?root = "resolve e (arg_site_root a)"
  let ?tpl = "case arg_template a of
                 Some t \<Rightarrow> if t \<noteq> [] then Some (resolve e t) else None
               | None \<Rightarrow> None"
  let ?latest = "latest_manifest_path ?root"
  let ?snap = "versioned_manifest_path ?root (snapshot_stamp e a)"
  from assms obtain pdfs w1 where s: "scan_pdfs e w (resolve e (arg_source_pdfs a)) = (Inr pdfs, w1)"
    by (auto simp: main_def Let_def split: prod.splits sum.splits)
  with assms obtain m w2 where b: "build_manifest e w1 pdfs ?root (arg_base_url a) ?tpl = (Inr m, w2)"
    by (auto simp: main_def Let_def split: prod.splits sum.splits)
  with assms s obtain w3 where l: "write_json e w2 ?latest m = (Inr (), w3)"
    by (auto simp: main_def Let_def split: prod.splits sum.splits)
  with assms s b obtain w4 where v: "write_json e w3 ?snap m = (Inr (), w4)"
    and w': "w' = print (''OK: processed '' @ str_nat (length (manifest_airports m)) @ '' airports'')
                   (print (''OK: wrote '' @ as_posix ?snap)
                      (print (''OK: wrote '' @ as_posix ?latest) w4))"
    by (auto simp: main_def Let_def split: prod.splits sum.splits)
  let ?text = "json_dumps e m @ [CHR 0x0A]"
  from write_json_text [OF l] have t3: "read_text w3 ?latest = Some ?text" .
  from write_json_text [OF v] have t4: "read_text w4 ?snap = Some ?text" .
  have "read_text w4 ?latest = Some ?text"
  proof (cases "key ?latest = key ?snap")
    case True
    with t4 show ?thesis by (simp add: read_text_iff)
  next
    case False
    have "name ?snap @ ''.tmp'' \<noteq> ''manifest.json''"
    proof
      assume "name ?snap @ ''.tmp'' = ''manifest.json''"
      then have "last (name ?snap @ ''.tmp'') = last ''manifest.json''" by simp
      then show False by simp
    qed
    then have "key ?latest \<noteq> key (parent ?snap) @ [name ?snap @ ''.tmp'']"
      by (simp add: key_latest)
    from write_json_keeps [OF v t3 False this] show ?thesis .
  qed
  with t4 w' s b show ?thesis by (auto simp: read_text_print)
qed

text \<open>A template that is an object without an \<open>airports\<close> list is refused with \<open>ValueError\<close>.\<close>

lemma object_template_without_airports_list:
  assumes "load_json e w tp = Inr (JObj t)"
    and "\<not> is_json_list (dict_get t ''airports'')"
  shows "build_manifest e w pdfs root base_url (Some tp) =
           (Inl (ValueError ''Template manifest must contain an 'airports' array.''), w)"
  using assms
  by (auto simp: build_manifest_def is_json_list_def split: option.splits json.splits)

lemma digit_char_no_slash: "n < 10 \<Longrightarrow> digit_char n \<noteq> CHR ''/''"
  by (simp add: digit_char_def char_of_eq_iff take_bit_eq_mod)

lemma str_nat_no_slash: "CHR ''/'' \<notin> set (str_nat n)"
proof (induction n rule: str_nat.induct)
  case (1 n)
  show ?case
  proof (cases "n < 10")
    case True
    then show ?thesis using digit_char_no_slash [of n] by (subst str_nat.simps) auto
  next
    case False
    with 1 digit_char_no_slash [of "n mod 10"] show ?thesis
      by (subst str_nat.simps) auto
  qed
qed

lemma zero_pad_no_slash: "CHR ''/'' \<notin> set (zero_pad k n)"
  by (auto simp: zero_pad_def str_nat_no_slash)

lemma strftime_stamp_no_slash: "CHR ''/'' \<notin> set (strftime_stamp dt)"
  by (simp add: strftime_stamp_def zero_pad_no_slash)

lemma key_snoc: "c \<noteq> ''..'' \<Longrightarrow> key (PPath b (xs @ [c])) = key (PPath b xs) @ [c]"
  by (simp add: key_def canon_snoc)

lemma key_versioned:
  assumes "CHR ''/'' \<notin> set ts"
  shows "key (versioned_manifest_path root ts) = key root @ [''manifests'', ''manifest-'' @ ts @ ''.json'']"
proof -
  define nm where "nm = ''manifest-'' @ ts @ ''.json''"
  have c: "is_component nm"
    using assms by (auto simp: is_component_def nm_def)
  have m: "is_component ''manifests''" by (simp add: is_component_def)
  have n: "nm \<noteq> ''..''" by (simp add: nm_def)
  have "versioned_manifest_path root ts = pjoin (pjoin root ''manifests'') nm"
    by (simp add: versioned_manifest_path_def nm_def)
  also have "\<dots> = PPath (absolute root) ((parts root @ [''manifests'']) @ [nm])"
    by (simp add: pjoin_component [OF c] pjoin_component [OF m])
  finally have "key (versioned_manifest_path root ts) = key root @ [''manifests'', nm]"
    using n by (simp add: key_def canon_snoc del: append_assoc)
  then show ?thesis by (simp add: nm_def)
qed

text \<open>The order of the entries, for any dictionary of records.\<close>

lemma build_order:
  assumes "build_manifest e w pdfs root base_url tpl = (Inr m, w')"
  shows "(tpl = None \<longrightarrow>
            length (manifest_airports m) = length pdfs
          \<and> map (\<lambda>x. field x ''iata'') (manifest_airports m)
              = map (\<lambda>c. Some (JStr c)) (sort (map fst pdfs))
          \<and> sorted (sort (map fst pdfs)))
       \<and> (tpl = Some tp \<longrightarrow>
            (\<exists>t tas. load_json e w tp = Inr (JObj t) \<and> dict_get t ''airports'' = Some (JList tas)
               \<and> manifest_airports m = template_entries pdfs tas
               \<and> map (\<lambda>x. field x ''iata'') (manifest_airports m)
                   = map (\<lambda>c. Some (JStr c))
                       (filter (\<lambda>c. c \<noteq> [] \<and> dict_get pdfs c \<noteq> None) (map template_id tas))))"
proof (intro conjI impI)
  assume n: "tpl = None"
  from build_manifest_minimal [OF assms [unfolded n]]
  have a: "manifest_airports m =
      map (\<lambda>(code, pdf). minimal_airport code (as_posix (rel_path pdf)) pdf) (sort_key fst pdfs)"
    by (simp add: manifest_airports_finish)
  then show "length (manifest_airports m) = length pdfs" by simp
  have "map (\<lambda>x. field x ''iata'') (manifest_airports m)
      = map (\<lambda>c. Some (JStr c)) (map fst (sort_key fst pdfs))"
    unfolding a by (simp add: field_minimal_airport case_prod_beta)
  then show "map (\<lambda>x. field x ''iata'') (manifest_airports m)
      = map (\<lambda>c. Some (JStr c)) (sort (map fst pdfs))"
    by (simp add: map_sort_key)
  show "sorted (sort (map fst pdfs))" by simp
next
  assume s: "tpl = Some tp"
  from assms [unfolded s] show "\<exists>t tas. load_json e w tp = Inr (JObj t) \<and> dict_get t ''airports'' = Some (JList tas)
               \<and> manifest_airports m = template_entries pdfs tas
               \<and> map (\<lambda>x. field x ''iata'') (manifest_airports m)
                   = map (\<lambda>c. Some (JStr c))
                       (filter (\<lambda>c. c \<noteq> [] \<and> dict_get pdfs c \<noteq> None) (map template_id tas))"
    by (elim build_manifest_template) (auto simp: manifest_airports_finish template_entries_ids)
qed

lemma scan_pdfs_ids:
  assumes "scan_pdfs e w src = (Inr pdfs, w1)"
  shows "set (map fst pdfs) = set (scanned_ids w src)"
proof -
  let ?ps = "sorted_paths (rglob_pdf w src)"
  from assms have l: "scan_loop e ?ps [] w = (pdfs, w1)"
    by (auto simp: scan_pdfs_def split: if_splits prod.splits)
  have set_ps: "set ?ps = set (rglob_pdf w src)" by (simp add: sorted_paths_def)
  show ?thesis
  proof (intro set_eqI iffI)
    fix c assume "c \<in> set (map fst pdfs)"
    then obtain pdf where "(c, pdf) \<in> set pdfs" by auto
    with scan_pdfs_scanned(2) [OF assms] have "scanned w (rglob_pdf w src) (c, pdf)" by blast
    then show "c \<in> set (scanned_ids w src)"
      by (force simp: scanned_def scanned_ids_def)
  next
    fix c assume "c \<in> set (scanned_ids w src)"
    then obtain p where p: "p \<in> set ?ps" "is_file w p" "safe_iata_from_filename p = c" "c \<noteq> []"
      by (auto simp: scanned_ids_def set_ps)
    then have "List.find (\<lambda>p. is_file w p \<and> safe_iata_from_filename p = c) ?ps \<noteq> None"
      by (auto simp: find_None_iff)
    with scan_loop_first [OF l _ p(4)] have "dict_get pdfs c \<noteq> None"
      by (auto simp: dict_get_def)
    then show "c \<in> set (map fst pdfs)"
      by (auto simp: dict_get_def map_of_eq_None_iff)
  qed
qed

lemma scanned_ids_nonempty: "c \<in> set (scanned_ids w src) \<Longrightarrow> c \<noteq> []"
  by (auto simp: scanned_ids_def)

lemma ex2_scan: "scan_pdfs ex2_env ex2_world ex_src = (Inr ex2_pdfs, ex2_world)"
  by code_simp

lemma ex2_ids: "scanned_ids ex2_world ex_src = [''LAX'', ''JFK'']"
  by code_simp

lemma ex2_build_minimal: "\<not> isl (fst (build_manifest ex2_env ex2_world ex2_pdfs ex_root None None))"
  by code_simp

lemma ex2_build_template:
  "\<not> isl (fst (build_manifest ex2_env ex2_world ex2_pdfs ex_root None (Some ex_tpl)))"
  by code_simp

lemma ex2_load: "load_json ex2_env ex2_world ex_tpl = Inr ex2_template"
  by code_simp

section \<open>Directories and files that the publisher creates\<close>








lemma canon_length: "length (canon xs) \<le> length xs"
proof (induction xs rule: rev_induct)
  case Nil
  show ?case by (simp add: canon_def)
next
  case (snoc x xs)
  then show ?case by (auto simp: canon_snoc)
qed


















section \<open>The claims\<close>



text \<open>
  C6. Normalizing a matched template entry fills \<open>icao\<close> and \<open>name\<close> with the
  identifier and \<open>city\<close> with the empty string only where the template has no such
  key; a value the template supplies under any key other than \<open>iata\<close> and \<open>pdf\<close>
  is the value of the output entry.
\<close>

theorem normalize_fills_only_missing_fields:
  "dict_get (normalize_airport_dict d code) ''icao'' =
     Some (case dict_get d ''icao'' of Some v \<Rightarrow> v | None \<Rightarrow> JStr code)
   \<and> dict_get (normalize_airport_dict d code) ''name'' =
     Some (case dict_get d ''name'' of Some v \<Rightarrow> v | None \<Rightarrow> JStr code)
   \<and> dict_get (normalize_airport_dict d code) ''city'' =
     Some (case dict_get d ''city'' of Some v \<Rightarrow> v | None \<Rightarrow> JStr [])
   \<and> (dict_get d k = Some v \<and> k \<noteq> ''iata'' \<longrightarrow>
        dict_get (normalize_airport_dict d code) k = Some v)
   \<and> (dict_get d k = Some v \<and> k \<noteq> ''iata'' \<and> k \<noteq> ''pdf'' \<longrightarrow>
        field (template_airport d code url pdf) k = Some v)"
  by (auto simp: field_template_airport dict_get_normalize split: option.splits)

theorem normalize_fills_only_missing_fields_witness:
  "dict_get [(''iata'', JStr '' jfk ''), (''name'', JStr ''Kennedy'')] ''name'' = Some (JStr ''Kennedy'')
   \<and> ''name'' \<noteq> ''iata'' \<and> ''name'' \<noteq> ''pdf''
   \<and> field (template_airport [(''iata'', JStr '' jfk ''), (''name'', JStr ''Kennedy'')] ''JFK''
               ''pdfs/JFK/H1.pdf'' ex_pdf) ''name'' = Some (JStr ''Kennedy'')
   \<and> dict_get (normalize_airport_dict [(''iata'', JStr '' jfk ''), (''name'', JStr ''Kennedy'')] ''JFK'') ''icao''
       = Some (JStr ''JFK'')"
  using normalize_fills_only_missing_fields
    [of "[(''iata'', JStr '' jfk ''), (''name'', JStr ''Kennedy'')]" "''JFK''" "''name''"
        "JStr ''Kennedy''" "''pdfs/JFK/H1.pdf''" ex_pdf]
  by (simp add: dict_get_def)

text \<open>
  C8. The manifest of a successful build has a \<open>baseURL\<close> key exactly when a base
  URL was supplied, that is, when \<open>base_url\<close> is a non-empty string (the source tests
  \<open>if base_url:\<close>, so the empty string counts as not supplied, like \<open>None\<close>). The
  value is then the supplied URL with a slash appended unless it already ends in one.
\<close>

theorem base_url_present_iff_supplied:
  assumes "build_manifest e w pdfs root base_url tpl = (Inr m, w')"
  shows "((field m ''baseURL'' \<noteq> None) = (\<exists>url. base_url = Some url \<and> url \<noteq> []))
       \<and> (base_url = Some url \<and> url \<noteq> [] \<longrightarrow>
            field m ''baseURL'' = Some (JStr (ensure_trailing_slash url))
            \<and> endswith (ensure_trailing_slash url) ''/''
            \<and> (endswith url ''/'' \<longrightarrow> ensure_trailing_slash url = url)
            \<and> (\<not> endswith url ''/'' \<longrightarrow> ensure_trailing_slash url = url @ ''/''))"
  using build_manifest_finish [OF assms]
  by (auto simp: field_finish_base_url ensure_trailing_slash_def endswith_def split: option.splits)

theorem base_url_present_iff_supplied_witness:
  "build_manifest ex_env ex_world [(''JFK'', ex_pdf)] ex_root (Some ''https://x.io/r'') None =
     (Inr (finish_manifest ex_env (Some ''https://x.io/r'')
             [minimal_airport ''JFK'' ''pdfs/JFK/H1.pdf'' ex_pdf]),
      \<lparr>files = ex_published, out = []\<rparr>)
   \<and> field (finish_manifest ex_env (Some ''https://x.io/r'')
               [minimal_airport ''JFK'' ''pdfs/JFK/H1.pdf'' ex_pdf]) ''baseURL''
       = Some (JStr ''https://x.io/r/'')
   \<and> field (finish_manifest ex_env None [minimal_airport ''JFK'' ''pdfs/JFK/H1.pdf'' ex_pdf]) ''baseURL''
       = None"
proof -
  have b: "build_manifest ex_env ex_world [(''JFK'', ex_pdf)] ex_root base_url None =
     (Inr (finish_manifest ex_env base_url [minimal_airport ''JFK'' ''pdfs/JFK/H1.pdf'' ex_pdf]),
      \<lparr>files = ex_published, out = []\<rparr>)" for base_url
    unfolding ex_world_def by (rule ex_build_minimal)
  have s: "ensure_trailing_slash ''https://x.io/r'' = ''https://x.io/r/''"
    by (simp add: ensure_trailing_slash_def endswith_def)
  from base_url_present_iff_supplied [OF b [of "Some ''https://x.io/r''"], of "''https://x.io/r''"]
       base_url_present_iff_supplied [OF b [of None], of "[]"] b s
  show ?thesis by simp
qed



text \<open>
  C10. Every entry of the manifest of a successful run carries, as its \<open>iata\<close>, the
  trimmed and uppercased file stem of a scanned record. With a template, the value
  is the trimmed and uppercased \<open>str\<close> of what a template entry holds under
  \<open>iata\<close>: the normalized identifier replaces the raw one.
\<close>

theorem manifest_identifiers_are_normalized:
  assumes "scan_pdfs e w src = (Inr pdfs, w1)"
    and "build_manifest e w1 pdfs root base_url tpl = (Inr m, w2)"
  shows "(\<forall>x \<in> set (manifest_airports m).
            \<exists>pdf. (safe_iata_from_filename (src_path pdf), pdf) \<in> set pdfs
              \<and> src_path pdf \<in> set (rglob_pdf w src) \<and> is_file w (src_path pdf)
              \<and> field x ''iata'' = Some (JStr (upper (strip (stem (src_path pdf))))))
       \<and> (tpl = Some tp \<longrightarrow>
            (\<exists>t tas. load_json e w1 tp = Inr (JObj t) \<and> dict_get t ''airports'' = Some (JList tas)
               \<and> (\<forall>x \<in> set (manifest_airports m).
                     \<exists>d. JObj d \<in> set tas
                       \<and> field x ''iata'' =
                           Some (JStr (upper (strip (py_str
                              (case dict_get d ''iata'' of Some v \<Rightarrow> v | None \<Rightarrow> JStr []))))))))"
proof (intro conjI ballI impI)
  fix x assume x: "x \<in> set (manifest_airports m)"
  from manifest_entries_cases [OF assms(2) x] obtain code pdf where
    cp: "(code, pdf) \<in> set pdfs" and f: "field x ''iata'' = Some (JStr code)" by blast
  from scan_pdfs_scanned(2) [OF assms(1)] cp have "scanned w (rglob_pdf w src) (code, pdf)" by blast
  with cp f show "\<exists>pdf. (safe_iata_from_filename (src_path pdf), pdf) \<in> set pdfs
              \<and> src_path pdf \<in> set (rglob_pdf w src) \<and> is_file w (src_path pdf)
              \<and> field x ''iata'' = Some (JStr (upper (strip (stem (src_path pdf)))))"
    by (intro exI [of _ pdf]) (auto simp: scanned_def safe_iata_from_filename_def)
next
  assume s: "tpl = Some tp"
  from assms(2) [unfolded s] obtain t tas where
    l: "load_json e w1 tp = Inr (JObj t)" "dict_get t ''airports'' = Some (JList tas)"
    and m: "m = finish_manifest e base_url (template_entries pdfs tas)"
    by (rule build_manifest_template)
  have "\<exists>d. JObj d \<in> set tas \<and> field x ''iata'' =
            Some (JStr (upper (strip (py_str (case dict_get d ''iata'' of Some v \<Rightarrow> v | None \<Rightarrow> JStr [])))))"
    if "x \<in> set (manifest_airports m)" for x
    using that unfolding m manifest_airports_finish template_entries_elem
    by (auto simp: template_match_Some field_template_airport dict_get_normalize template_iata_def)
  with l show "\<exists>t tas. load_json e w1 tp = Inr (JObj t) \<and> dict_get t ''airports'' = Some (JList tas)
               \<and> (\<forall>x \<in> set (manifest_airports m).
                     \<exists>d. JObj d \<in> set tas
                       \<and> field x ''iata'' =
                           Some (JStr (upper (strip (py_str
                              (case dict_get d ''iata'' of Some v \<Rightarrow> v | None \<Rightarrow> JStr []))))))"
    by blast
qed

theorem manifest_identifiers_are_normalized_witness:
  "scan_pdfs ex_env ex_world ex_src =
     (Inr [(''JFK'', ex_pdf)],
      \<lparr>files = ex_files,
       out = [duplicate_warning ''JFK'' (PPath True [''src'', ''jfk.pdf''])
                (PPath True [''src'', ''sub'', ''JFK.pdf''])]\<rparr>)
   \<and> build_manifest ex_env
        \<lparr>files = ex_files,
         out = [duplicate_warning ''JFK'' (PPath True [''src'', ''jfk.pdf''])
                  (PPath True [''src'', ''sub'', ''JFK.pdf''])]\<rparr>
        [(''JFK'', ex_pdf)] ex_root None (Some ex_tpl) =
     (Inr (finish_manifest ex_env None [template_airport ex_entry ''JFK'' ''pdfs/JFK/H1.pdf'' ex_pdf]),
      \<lparr>files = ex_published,
       out = [duplicate_warning ''JFK'' (PPath True [''src'', ''jfk.pdf''])
                (PPath True [''src'', ''sub'', ''JFK.pdf'']),
              missing_pdf_warning ''LAX'']\<rparr>)
   \<and> dict_get ex_entry ''iata'' = Some (JStr '' jfk '')
   \<and> field (template_airport ex_entry ''JFK'' ''pdfs/JFK/H1.pdf'' ex_pdf) ''iata''
       = Some (JStr (upper (strip (stem (PPath True [''src'', ''jfk.pdf''])))))
   \<and> upper (strip (stem (PPath True [''src'', ''jfk.pdf'']))) = ''JFK''"
proof -
  let ?w1 = "\<lparr>files = ex_files,
       out = [duplicate_warning ''JFK'' (PPath True [''src'', ''jfk.pdf''])
                (PPath True [''src'', ''sub'', ''JFK.pdf''])]\<rparr>"
  let ?m = "finish_manifest ex_env None [template_airport ex_entry ''JFK'' ''pdfs/JFK/H1.pdf'' ex_pdf]"
  have b: "build_manifest ex_env ?w1 [(''JFK'', ex_pdf)] ex_root None (Some ex_tpl) =
     (Inr ?m, \<lparr>files = ex_published,
       out = [duplicate_warning ''JFK'' (PPath True [''src'', ''jfk.pdf''])
                (PPath True [''src'', ''sub'', ''JFK.pdf'']),
              missing_pdf_warning ''LAX'']\<rparr>)"
    using ex_build_template [of "[duplicate_warning ''JFK'' (PPath True [''src'', ''jfk.pdf''])
                (PPath True [''src'', ''sub'', ''JFK.pdf''])]"] by simp
  have u: "upper (strip (stem (PPath True [''src'', ''jfk.pdf'']))) = ''JFK''"
    by code_simp
  from manifest_identifiers_are_normalized [OF ex_scan b, of ex_tpl]
  have "\<exists>pdf. (safe_iata_from_filename (src_path pdf), pdf) \<in> set [(''JFK'', ex_pdf)]
      \<and> field (template_airport ex_entry ''JFK'' ''pdfs/JFK/H1.pdf'' ex_pdf) ''iata''
        = Some (JStr (upper (strip (stem (src_path pdf)))))"
    by (auto simp: manifest_airports_finish)
  then have "field (template_airport ex_entry ''JFK'' ''pdfs/JFK/H1.pdf'' ex_pdf) ''iata''
       = Some (JStr (upper (strip (stem (PPath True [''src'', ''jfk.pdf''])))))"
    by (auto simp: ex_pdf_def)
  with ex_scan b u show ?thesis by (simp add: ex_entry_def dict_get_def)
qed




text \<open>
  C7 fails on the code for a template that is not a JSON object. A top-level list has
  no \<open>airports\<close> list, and \<open>build_manifest\<close> ends with \<open>AttributeError\<close>, raised
  by \<open>template.get\<close> before the test that would raise \<open>ValueError\<close>; the world is
  returned as it was. (For a template that is an object the \<open>ValueError\<close> is raised:
  \<open>object_template_without_airports_list\<close>.)
\<close>

theorem top_level_list_template_raises_attribute_error:
  "load_json ex_env_list ex_world (PPath True [''bad.json'']) = Inr (JList [])
   \<and> build_manifest ex_env_list ex_world [(''JFK'', ex_pdf)] ex_root None
        (Some (PPath True [''bad.json''])) = (Inl AttributeError, ex_world)"
proof -
  have l: "load_json ex_env_list ex_world (PPath True [''bad.json'']) = Inr (JList [])"
    by (simp add: load_json_def lookup_def key_def canon_def lookup_key_def ex_world_def ex_files_def
        ex_env_list_def)
  then show ?thesis by (simp add: build_manifest_def)
qed

text \<open>
  C9, as the code has it. After a successful run the latest manifest and the snapshot
  are regular files with the same text: the serialization of the manifest that
  \<open>build_manifest\<close> returned, followed by a newline. The latest manifest is
  \<open>manifest.json\<close> in the site root. When the time stamp has no path separator, the
  snapshot is \<open>manifests/manifest-<stamp>.json\<close> below the site root, a second
  file; the stamp taken from the clock never has a separator.
\<close>

theorem latest_and_snapshot_have_the_same_text:
  assumes "main e a w = (Inr r, w')"
  shows "(\<exists>pdfs w1 manifest w2.
            scan_pdfs e w (resolve e (arg_source_pdfs a)) = (Inr pdfs, w1)
          \<and> build_manifest e w1 pdfs (resolve e (arg_site_root a)) (arg_base_url a)
               (case arg_template a of
                  Some t \<Rightarrow> if t \<noteq> [] then Some (resolve e t) else None
                | None \<Rightarrow> None) = (Inr manifest, w2)
          \<and> read_text w' (latest_manifest_path (resolve e (arg_site_root a)))
              = Some (json_dumps e manifest @ [CHR 0x0A])
          \<and> read_text w' (versioned_manifest_path (resolve e (arg_site_root a)) (snapshot_stamp e a))
              = Some (json_dumps e manifest @ [CHR 0x0A]))
       \<and> key (latest_manifest_path (resolve e (arg_site_root a)))
           = key (resolve e (arg_site_root a)) @ [''manifest.json'']
       \<and> (CHR ''/'' \<notin> set (snapshot_stamp e a) \<longrightarrow>
            key (versioned_manifest_path (resolve e (arg_site_root a)) (snapshot_stamp e a))
              = key (resolve e (arg_site_root a))
                  @ [''manifests'', ''manifest-'' @ snapshot_stamp e a @ ''.json'']
          \<and> key (versioned_manifest_path (resolve e (arg_site_root a)) (snapshot_stamp e a))
              \<noteq> key (latest_manifest_path (resolve e (arg_site_root a))))
       \<and> (arg_timestamp a = None \<or> arg_timestamp a = Some [] \<longrightarrow>
            CHR ''/'' \<notin> set (snapshot_stamp e a))"
proof (intro conjI impI)
  show "\<exists>pdfs w1 manifest w2.
            scan_pdfs e w (resolve e (arg_source_pdfs a)) = (Inr pdfs, w1)
          \<and> build_manifest e w1 pdfs (resolve e (arg_site_root a)) (arg_base_url a)
               (case arg_template a of
                  Some t \<Rightarrow> if t \<noteq> [] then Some (resolve e t) else None
                | None \<Rightarrow> None) = (Inr manifest, w2)
          \<and> read_text w' (latest_manifest_path (resolve e (arg_site_root a)))
              = Some (json_dumps e manifest @ [CHR 0x0A])
          \<and> read_text w' (versioned_manifest_path (resolve e (arg_site_root a)) (snapshot_stamp e a))
              = Some (json_dumps e manifest @ [CHR 0x0A])"
    using assms by (rule main_writes_the_same_text)
next
  show "key (latest_manifest_path (resolve e (arg_site_root a)))
           = key (resolve e (arg_site_root a)) @ [''manifest.json'']"
    by (rule key_latest)
next
  assume s: "CHR ''/'' \<notin> set (snapshot_stamp e a)"
  from key_versioned [OF s]
  show "key (versioned_manifest_path (resolve e (arg_site_root a)) (snapshot_stamp e a))
              = key (resolve e (arg_site_root a))
                  @ [''manifests'', ''manifest-'' @ snapshot_stamp e a @ ''.json'']" .
  then show "key (versioned_manifest_path (resolve e (arg_site_root a)) (snapshot_stamp e a))
              \<noteq> key (latest_manifest_path (resolve e (arg_site_root a)))"
    by (simp add: key_latest)
next
  assume "arg_timestamp a = None \<or> arg_timestamp a = Some []"
  then show "CHR ''/'' \<notin> set (snapshot_stamp e a)"
    by (auto simp: snapshot_stamp_def strftime_stamp_no_slash)
qed

theorem latest_and_snapshot_have_the_same_text_witness:
  "main ex_env ex_args ex_world = (Inr 0, snd (main ex_env ex_args ex_world))
   \<and> read_text (snd (main ex_env ex_args ex_world))
        (latest_manifest_path (resolve ex_env (arg_site_root ex_args))) \<noteq> None
   \<and> read_text (snd (main ex_env ex_args ex_world))
        (latest_manifest_path (resolve ex_env (arg_site_root ex_args)))
     = read_text (snd (main ex_env ex_args ex_world))
        (versioned_manifest_path (resolve ex_env (arg_site_root ex_args)) (snapshot_stamp ex_env ex_args))
   \<and> arg_timestamp ex_args = None
   \<and> CHR ''/'' \<notin> set (snapshot_stamp ex_env ex_args)
   \<and> key (versioned_manifest_path (resolve ex_env (arg_site_root ex_args)) (snapshot_stamp ex_env ex_args))
       \<noteq> key (latest_manifest_path (resolve ex_env (arg_site_root ex_args)))"
proof -
  have m: "main ex_env ex_args ex_world = (Inr 0, snd (main ex_env ex_args ex_world))"
    using ex_main by (cases "main ex_env ex_args ex_world") simp
  have t: "arg_timestamp ex_args = None" by (simp add: ex_args_def)
  from latest_and_snapshot_have_the_same_text [OF m] m t show ?thesis by auto
qed

text \<open>
  C9 as the specification states it fails where it speaks of two files: with the
  time stamp \<open>x/../../manifest\<close> the run succeeds and the path of the snapshot
  resolves to the path of the latest manifest, so that one file is written twice.
\<close>

theorem snapshot_resolves_to_latest_counterexample:
  "fst (main ex_env (ex_args\<lparr>arg_timestamp := Some ''x/../../manifest''\<rparr>) ex_world) = Inr 0
   \<and> snapshot_stamp ex_env (ex_args\<lparr>arg_timestamp := Some ''x/../../manifest''\<rparr>) = ''x/../../manifest''
   \<and> resolve ex_env (arg_site_root (ex_args\<lparr>arg_timestamp := Some ''x/../../manifest''\<rparr>)) = ex_root
   \<and> key (latest_manifest_path ex_root) = [''docs'', ''manifest.json'']
   \<and> key (versioned_manifest_path ex_root ''x/../../manifest'') = [''docs'', ''manifest.json'']"
proof -
  have a: "snapshot_stamp ex_env (ex_args\<lparr>arg_timestamp := Some ''x/../../manifest''\<rparr>) = ''x/../../manifest''"
    by (simp add: snapshot_stamp_def)
  have b: "resolve ex_env (arg_site_root (ex_args\<lparr>arg_timestamp := Some ''x/../../manifest''\<rparr>)) = ex_root"
    by (simp add: ex_env_def ex_args_def ex_parse)
  have c: "key (latest_manifest_path ex_root) = [''docs'', ''manifest.json'']"
    by code_simp
  have d: "key (versioned_manifest_path ex_root ''x/../../manifest'') = [''docs'', ''manifest.json'']"
    by code_simp
  from ex_main_dots a b c d show ?thesis by simp
qed

text \<open>
  C4. Let the scan of a source directory succeed and the build after it. Without a
  template the identifiers of the manifest's entries are the identifiers of the
  documents of the directory, each once, in ascending order: there are as many
  entries as distinct identifiers, and as many as documents when no two documents
  share an identifier. With a template the identifiers of the manifest are those of
  the template's list, in the order of the template, without the ones that no
  document has.
\<close>

theorem manifest_order:
  assumes "scan_pdfs e w src = (Inr pdfs, w1)"
    and "build_manifest e w1 pdfs root base_url tpl = (Inr m, w2)"
  shows "(tpl = None \<longrightarrow>
            map (\<lambda>x. field x ''iata'') (manifest_airports m)
              = map (\<lambda>c. Some (JStr c)) (sort (remdups (scanned_ids w src)))
          \<and> length (manifest_airports m) = length (remdups (scanned_ids w src))
          \<and> (distinct (scanned_ids w src) \<longrightarrow>
               length (manifest_airports m) = length (scanned_ids w src))
          \<and> sorted (sort (remdups (scanned_ids w src)))
          \<and> distinct (sort (remdups (scanned_ids w src))))
       \<and> (tpl = Some tp \<longrightarrow>
            (\<exists>t tas. load_json e w1 tp = Inr (JObj t) \<and> dict_get t ''airports'' = Some (JList tas)
               \<and> manifest_airports m = template_entries pdfs tas
               \<and> map (\<lambda>x. field x ''iata'') (manifest_airports m)
                   = map (\<lambda>c. Some (JStr c))
                       (filter (\<lambda>c. c \<in> set (scanned_ids w src)) (map template_id tas))))"
proof (intro conjI impI)
  have d: "distinct (map fst pdfs)" by (rule scan_pdfs_scanned(3) [OF assms(1)])
  have s: "set (map fst pdfs) = set (scanned_ids w src)" by (rule scan_pdfs_ids [OF assms(1)])
  have eq: "sort (map fst pdfs) = sort (remdups (scanned_ids w src))"
    by (rule sorted_distinct_set_unique) (use d s in simp_all)
  {
    assume n: "tpl = None"
    from build_order [OF assms(2), of tp] n
    have a: "length (manifest_airports m) = length pdfs"
      "map (\<lambda>x. field x ''iata'') (manifest_airports m) = map (\<lambda>c. Some (JStr c)) (sort (map fst pdfs))"
      by simp_all
    from a(2) eq show "map (\<lambda>x. field x ''iata'') (manifest_airports m)
              = map (\<lambda>c. Some (JStr c)) (sort (remdups (scanned_ids w src)))" by simp
    from a(1) have "length (manifest_airports m) = length (sort (map fst pdfs))" by simp
    with eq show l: "length (manifest_airports m) = length (remdups (scanned_ids w src))" by simp
    {
      assume "distinct (scanned_ids w src)"
      with l show "length (manifest_airports m) = length (scanned_ids w src)"
        by (simp add: distinct_remdups_id)
    }
  }
  show "sorted (sort (remdups (scanned_ids w src)))" by simp
  show "distinct (sort (remdups (scanned_ids w src)))" by simp
  {
    assume t: "tpl = Some tp"
    from build_order [OF assms(2), of tp] t obtain t' tas where
      l: "load_json e w1 tp = Inr (JObj t')" "dict_get t' ''airports'' = Some (JList tas)"
      "manifest_airports m = template_entries pdfs tas"
      and i: "map (\<lambda>x. field x ''iata'') (manifest_airports m)
                   = map (\<lambda>c. Some (JStr c))
                       (filter (\<lambda>c. c \<noteq> [] \<and> dict_get pdfs c \<noteq> None) (map template_id tas))"
      by auto
    have "(c \<noteq> [] \<and> dict_get pdfs c \<noteq> None) = (c \<in> set (scanned_ids w src))" for c
      using s scanned_ids_nonempty [of c w src]
      by (auto simp: dict_get_def map_of_eq_None_iff simp flip: s)
    with i have "map (\<lambda>x. field x ''iata'') (manifest_airports m)
                   = map (\<lambda>c. Some (JStr c))
                       (filter (\<lambda>c. c \<in> set (scanned_ids w src)) (map template_id tas))"
      by simp
    with l show "\<exists>t tas. load_json e w1 tp = Inr (JObj t) \<and> dict_get t ''airports'' = Some (JList tas)
               \<and> manifest_airports m = template_entries pdfs tas
               \<and> map (\<lambda>x. field x ''iata'') (manifest_airports m)
                   = map (\<lambda>c. Some (JStr c))
                       (filter (\<lambda>c. c \<in> set (scanned_ids w src)) (map template_id tas))"
      by blast
  }
qed

theorem manifest_order_witness:
  "scan_pdfs ex2_env ex2_world ex_src = (Inr ex2_pdfs, ex2_world)
   \<and> scanned_ids ex2_world ex_src = [''LAX'', ''JFK'']
   \<and> build_manifest ex2_env ex2_world ex2_pdfs ex_root None None
       = (Inr (projr (fst (build_manifest ex2_env ex2_world ex2_pdfs ex_root None None))),
          snd (build_manifest ex2_env ex2_world ex2_pdfs ex_root None None))
   \<and> map (\<lambda>x. field x ''iata'')
         (manifest_airports (projr (fst (build_manifest ex2_env ex2_world ex2_pdfs ex_root None None))))
       = [Some (JStr ''JFK''), Some (JStr ''LAX'')]
   \<and> build_manifest ex2_env ex2_world ex2_pdfs ex_root None (Some ex_tpl)
       = (Inr (projr (fst (build_manifest ex2_env ex2_world ex2_pdfs ex_root None (Some ex_tpl)))),
          snd (build_manifest ex2_env ex2_world ex2_pdfs ex_root None (Some ex_tpl)))
   \<and> load_json ex2_env ex2_world ex_tpl
       = Inr (JObj [(''airports'',
                     JList [JObj [(''iata'', JStr ''lax'')], JObj [(''iata'', JStr ''ZZZ'')],
                            JObj [(''iata'', JStr ''jfk'')]])])
   \<and> map (\<lambda>x. field x ''iata'')
         (manifest_airports
            (projr (fst (build_manifest ex2_env ex2_world ex2_pdfs ex_root None (Some ex_tpl)))))
       = [Some (JStr ''LAX''), Some (JStr ''JFK'')]"
proof -
  let ?A = "build_manifest ex2_env ex2_world ex2_pdfs ex_root None None"
  let ?B = "build_manifest ex2_env ex2_world ex2_pdfs ex_root None (Some ex_tpl)"
  have a: "?A = (Inr (projr (fst ?A)), snd ?A)"
    using ex2_build_minimal by (cases ?A; cases "fst ?A") auto
  have b: "?B = (Inr (projr (fst ?B)), snd ?B)"
    using ex2_build_template by (cases ?B; cases "fst ?B") auto
  have ids: "template_id (JObj [(''iata'', JStr ''lax'')]) = ''LAX''"
    "template_id (JObj [(''iata'', JStr ''ZZZ'')]) = ''ZZZ''"
    "template_id (JObj [(''iata'', JStr ''jfk'')]) = ''JFK''"
    by code_simp+
  have srt: "sort [''LAX'', ''JFK''] = [''JFK'', ''LAX'']" by code_simp
  from manifest_order [OF ex2_scan a, of ex_tpl]
  have 1: "map (\<lambda>x. field x ''iata'') (manifest_airports (projr (fst ?A)))
       = [Some (JStr ''JFK''), Some (JStr ''LAX'')]"
    by (simp add: ex2_ids srt)
  from manifest_order [OF ex2_scan b, of ex_tpl] obtain t tas where
    l: "load_json ex2_env ex2_world ex_tpl = Inr (JObj t)" "dict_get t ''airports'' = Some (JList tas)"
    and i: "map (\<lambda>x. field x ''iata'') (manifest_airports (projr (fst ?B)))
       = map (\<lambda>c. Some (JStr c))
           (filter (\<lambda>c. c \<in> set (scanned_ids ex2_world ex_src)) (map template_id tas))"
    by auto
  from l have "tas = [JObj [(''iata'', JStr ''lax'')], JObj [(''iata'', JStr ''ZZZ'')],
                            JObj [(''iata'', JStr ''jfk'')]]"
    by (auto simp: ex2_load ex2_template_def dict_get_def)
  with i have 2: "map (\<lambda>x. field x ''iata'') (manifest_airports (projr (fst ?B)))
       = [Some (JStr ''LAX''), Some (JStr ''JFK'')]"
    by (simp add: ex2_ids ids)
  from ex2_scan ex2_ids a b 1 2 ex2_load show ?thesis
    by (simp add: ex2_template_def)
qed




end
